theory Spec2Isabelle
  imports Complex_Main "HOL-Library.Multiset"
begin

section \<open>Data model\<close>

text \<open>
  The simulator's stamp engine (ConductanceMatrix.cpp) works on a vector of pointers to
  \<open>Component\<close> objects (Component.h). It only ever asks a component for its dynamic
  type (\<open>typeid\<close>) and for the results of its virtual member functions \<open>getNodes\<close>,
  \<open>getConductance\<close> and \<open>getProperties\<close>. The bodies of these member functions are
  not part of the sources at hand, so a component is the record of its dynamic type and
  of what the three member functions return.

  A \<open>double\<close> is a real number and a \<open>std::complex<double>\<close> a complex number. The
  functions of the first sections add and subtract exactly; the section on double
  arithmetic repeats the assembly with every sum and difference rounded. An \<open>int\<close> is
  an integer; no stamp computes anything but \<open>n - 1\<close> on a
  node id. The number of nodes is the size of an Eigen matrix, a natural number.
\<close>

datatype componentType =
    ACCurrentSource
  | DCCurrentSource
  | VoltageControlledCurrentSource
  | ACVoltageSource
  | DCVoltageSource
  | Resistor
  | Capacitor
  | Inductor
  | Diode
  | BJT
  | MOSFET

record component =
  getName :: string
  typeid :: componentType
  getNodes :: "int list"
  getConductance :: "int \<Rightarrow> int \<Rightarrow> real \<Rightarrow> complex"
  getProperties :: "real list"

text \<open>
  \<open>Eigen::MatrixXcd\<close> is a dense matrix, kept as the list of its rows, and
  \<open>Eigen::VectorXcd\<close> a dense vector.
\<close>

type_synonym MatrixXcd = "complex list list"
type_synonym VectorXcd = "complex list"

text \<open>
  Reading \<open>std::vector::operator[]\<close> or an Eigen coefficient outside the container is
  undefined behaviour in the source (an assertion failure in a debug build). The model
  makes each such access a result of its own.
\<close>

datatype error =
    NodeIndexOutOfRange
  | PropertyIndexOutOfRange
  | ComponentIndexOutOfRange
  | MatrixIndexOutOfRange
  | VectorIndexOutOfRange

definition bindE :: "error + 'a \<Rightarrow> ('a \<Rightarrow> error + 'b) \<Rightarrow> error + 'b" where
  "bindE m f = (case m of Inl e \<Rightarrow> Inl e | Inr x \<Rightarrow> f x)"

definition elemAt :: "'a list \<Rightarrow> nat \<Rightarrow> error \<Rightarrow> error + 'a" where
  "elemAt xs i e = (if i < length xs then Inr (xs ! i) else Inl e)"

definition inRange :: "int \<Rightarrow> nat \<Rightarrow> bool" where
  "inRange i n \<longleftrightarrow> 0 \<le> i \<and> i < int n"

definition MatrixZero :: "nat \<Rightarrow> nat \<Rightarrow> MatrixXcd" where
  "MatrixZero rows cols = replicate rows (replicate cols 0)"

definition VectorZero :: "nat \<Rightarrow> VectorXcd" where
  "VectorZero n = replicate n 0"

text \<open>
  \<open>m(i, j) op= v\<close>: the coefficient at row \<open>i\<close> and column \<open>j\<close> is replaced by \<open>f\<close> of
  its old value.
\<close>

definition matrixModify ::
  "MatrixXcd \<Rightarrow> int \<Rightarrow> int \<Rightarrow> (complex \<Rightarrow> complex) \<Rightarrow> error + MatrixXcd" where
  "matrixModify m i j f =
     (if inRange i (length m) \<and> inRange j (length (m ! nat i))
      then Inr (m[nat i := (m ! nat i)[nat j := f (m ! nat i ! nat j)]])
      else Inl MatrixIndexOutOfRange)"

text \<open>\<open>m.row(i) -= m.row(i)\<close>\<close>

definition matrixRowSubSelf :: "MatrixXcd \<Rightarrow> int \<Rightarrow> error + MatrixXcd" where
  "matrixRowSubSelf m i =
     (if inRange i (length m)
      then Inr (m[nat i := map (\<lambda>x. x - x) (m ! nat i)])
      else Inl MatrixIndexOutOfRange)"

text \<open>\<open>v(i) op= x\<close>\<close>

definition vectorModify ::
  "VectorXcd \<Rightarrow> int \<Rightarrow> (complex \<Rightarrow> complex) \<Rightarrow> error + VectorXcd" where
  "vectorModify v i f =
     (if inRange i (length v)
      then Inr (v[nat i := f (v ! nat i)])
      else Inl VectorIndexOutOfRange)"

section \<open>The conductance matrix\<close>

text \<open>
  \<open>matrixHandleTwoTerminalComponent\<close>. The first condition of the source is
  \<open>nodes[0] != 0 && nodes[1 != 0]\<close>: the index \<open>1 != 0\<close> is the boolean \<open>true\<close>, that is
  \<open>1\<close>, and the integer \<open>nodes[1]\<close> read there counts as true when it is not \<open>0\<close>.
  The right operand is only evaluated when the left one holds.
\<close>

definition matrixHandleTwoTerminalComponent ::
  "MatrixXcd \<Rightarrow> component \<Rightarrow> int list \<Rightarrow> real \<Rightarrow> error + MatrixXcd" where
  "matrixHandleTwoTerminalComponent conductanceMatrix component nodes angFreq =
     bindE
       (bindE (elemAt nodes 0 NodeIndexOutOfRange) (\<lambda>n0.
          if n0 \<noteq> 0
          then bindE (elemAt nodes (of_bool ((1::int) \<noteq> 0)) NodeIndexOutOfRange)
                 (\<lambda>n. Inr (n \<noteq> 0))
          else Inr False))
       (\<lambda>both.
     bindE
       (if both
        then bindE (elemAt nodes 0 NodeIndexOutOfRange) (\<lambda>n0.
             bindE (elemAt nodes 1 NodeIndexOutOfRange) (\<lambda>n1.
             bindE (matrixModify conductanceMatrix (n0 - 1) (n1 - 1)
                      (\<lambda>x. x - getConductance component n0 n1 angFreq)) (\<lambda>m.
             matrixModify m (n1 - 1) (n0 - 1)
                      (\<lambda>x. x - getConductance component n1 n0 angFreq))))
        else Inr conductanceMatrix)
       (\<lambda>m1.
     bindE (elemAt nodes 0 NodeIndexOutOfRange) (\<lambda>n0.
     bindE
       (if n0 \<noteq> 0
        then bindE (elemAt nodes 1 NodeIndexOutOfRange) (\<lambda>n1.
             matrixModify m1 (n0 - 1) (n0 - 1)
               (\<lambda>x. x + getConductance component n0 n1 angFreq))
        else Inr m1)
       (\<lambda>m2.
     bindE (elemAt nodes 1 NodeIndexOutOfRange) (\<lambda>n1.
       if n1 \<noteq> 0
       then bindE (elemAt nodes 0 NodeIndexOutOfRange) (\<lambda>n0'.
            matrixModify m2 (n1 - 1) (n1 - 1)
              (\<lambda>x. x + getConductance component n1 n0' angFreq))
       else Inr m2)))))"

text \<open>\<open>matrixHandleVoltageSource\<close>: the row replacement of a voltage source.\<close>

definition matrixHandleVoltageSource :: "MatrixXcd \<Rightarrow> component \<Rightarrow> error + MatrixXcd" where
  "matrixHandleVoltageSource conductanceMatrix component =
     (let nodes = getNodes component in
      bindE (elemAt nodes 0 NodeIndexOutOfRange) (\<lambda>nodePlus.
      bindE (elemAt nodes 1 NodeIndexOutOfRange) (\<lambda>nodeMinus.
        if nodePlus = nodeMinus then Inr conductanceMatrix
        else if nodePlus \<noteq> 0 \<and> nodeMinus \<noteq> 0 then
          bindE (matrixRowSubSelf conductanceMatrix (nodePlus - 1)) (\<lambda>m1.
          bindE (matrixModify m1 (nodePlus - 1) (nodePlus - 1) (\<lambda>_. 1)) (\<lambda>m2.
          matrixModify m2 (nodePlus - 1) (nodeMinus - 1) (\<lambda>_. - 1)))
        else if nodePlus \<noteq> 0 \<and> nodeMinus = 0 then
          bindE (matrixRowSubSelf conductanceMatrix (nodePlus - 1)) (\<lambda>m1.
          matrixModify m1 (nodePlus - 1) (nodePlus - 1) (\<lambda>_. 1))
        else if nodePlus = 0 \<and> nodeMinus \<noteq> 0 then
          bindE (matrixRowSubSelf conductanceMatrix (nodeMinus - 1)) (\<lambda>m1.
          matrixModify m1 (nodeMinus - 1) (nodeMinus - 1) (\<lambda>_. - 1))
        else Inr conductanceMatrix)))"

text \<open>
  \<open>updateConductanceMatrix\<close>. The reference parameter \<open>isVoltageSource\<close> is passed in
  and returned.
\<close>

definition updateConductanceMatrix ::
  "MatrixXcd \<Rightarrow> component \<Rightarrow> bool \<Rightarrow> real \<Rightarrow> error + (MatrixXcd \<times> bool)" where
  "updateConductanceMatrix conductanceMatrix component isVoltageSource angFreq =
     (if typeid component = DCCurrentSource \<or> typeid component = ACCurrentSource
      then Inr (conductanceMatrix, isVoltageSource)
      else if typeid component = DCVoltageSource \<or> typeid component = ACVoltageSource
      then Inr (conductanceMatrix, True)
      else
        (let nodes = getNodes component in
         if length nodes = 2
         then bindE (matrixHandleTwoTerminalComponent conductanceMatrix component nodes angFreq)
                (\<lambda>m. Inr (m, isVoltageSource))
         else Inr (conductanceMatrix, isVoltageSource)))"

text \<open>
  The first loop of \<open>getConductanceMatrix\<close>, over the components from index \<open>i\<close> on:
  every component is stamped and the indices of the voltage sources are collected.
\<close>

fun conductanceStampLoop ::
  "component list \<Rightarrow> nat \<Rightarrow> real \<Rightarrow> MatrixXcd \<Rightarrow> nat list \<Rightarrow> error + (MatrixXcd \<times> nat list)" where
  "conductanceStampLoop [] i angFreq m voltageSources = Inr (m, voltageSources)"
| "conductanceStampLoop (c # cs) i angFreq m voltageSources =
     bindE (updateConductanceMatrix m c False angFreq) (\<lambda>(m', isVoltageSource).
       conductanceStampLoop cs (Suc i) angFreq m'
         (if isVoltageSource then voltageSources @ [i] else voltageSources))"

text \<open>
  The second loop of \<open>getConductanceMatrix\<close>: \<open>i\<close> runs over
  \<open>0 ..< voltageSources.size()\<close> and the handler is given \<open>components[i]\<close>.
\<close>

fun conductanceSourceLoop ::
  "component list \<Rightarrow> nat list \<Rightarrow> MatrixXcd \<Rightarrow> error + MatrixXcd" where
  "conductanceSourceLoop components [] m = Inr m"
| "conductanceSourceLoop components (i # is) m =
     bindE (elemAt components i ComponentIndexOutOfRange) (\<lambda>c.
     bindE (matrixHandleVoltageSource m c) (\<lambda>m'.
       conductanceSourceLoop components is m'))"

definition getConductanceMatrix ::
  "component list \<Rightarrow> nat \<Rightarrow> real \<Rightarrow> error + MatrixXcd" where
  "getConductanceMatrix components numNodes angFreq =
     bindE (conductanceStampLoop components 0 angFreq (MatrixZero numNodes numNodes) [])
       (\<lambda>(m, voltageSources).
          conductanceSourceLoop components [0 ..< length voltageSources] m)"

section \<open>The excitation vector\<close>

text \<open>\<open>std::polar(amplitude, phase)\<close> is \<open>rcis amplitude phase\<close>.\<close>

definition vectorHandleACCurrentSource :: "VectorXcd \<Rightarrow> component \<Rightarrow> error + VectorXcd" where
  "vectorHandleACCurrentSource currentVector component =
     (let nodes = getNodes component in
      bindE (elemAt (getProperties component) 0 PropertyIndexOutOfRange) (\<lambda>amplitude.
      bindE (elemAt (getProperties component) 1 PropertyIndexOutOfRange) (\<lambda>phase.
      let current = rcis amplitude phase in
      bindE (elemAt nodes 0 NodeIndexOutOfRange) (\<lambda>n0.
      bindE (if n0 \<noteq> 0 then vectorModify currentVector (n0 - 1) (\<lambda>x. x - current)
             else Inr currentVector) (\<lambda>v1.
      bindE (elemAt nodes 1 NodeIndexOutOfRange) (\<lambda>n1.
        if n1 \<noteq> 0 then vectorModify v1 (n1 - 1) (\<lambda>x. x + current)
        else Inr v1))))))"

definition vectorHandleVoltageSource :: "VectorXcd \<Rightarrow> component \<Rightarrow> error + VectorXcd" where
  "vectorHandleVoltageSource currentVector component =
     (let properties = getProperties component;
          isDC = (typeid component = DCVoltageSource) in
      bindE (if \<not> isDC
             then bindE (elemAt properties 0 PropertyIndexOutOfRange) (\<lambda>amplitude.
                  bindE (elemAt properties 1 PropertyIndexOutOfRange) (\<lambda>phase.
                  Inr (rcis amplitude phase)))
             else bindE (elemAt properties 0 PropertyIndexOutOfRange) (\<lambda>p.
                  Inr (complex_of_real p))) (\<lambda>voltage.
      let nodes = getNodes component in
      bindE (elemAt nodes 0 NodeIndexOutOfRange) (\<lambda>nodePlus.
      bindE (elemAt nodes 1 NodeIndexOutOfRange) (\<lambda>nodeMinus.
        if nodePlus = nodeMinus then Inr currentVector
        else if nodePlus = 0 then
          (if isDC then vectorModify currentVector (nodeMinus - 1) (\<lambda>_. 0)
           else vectorModify currentVector (nodeMinus - 1) (\<lambda>_. voltage))
        else
          (if isDC then vectorModify currentVector (nodePlus - 1) (\<lambda>_. 0)
           else vectorModify currentVector (nodePlus - 1) (\<lambda>_. voltage))))))"

definition updateCurrentVector ::
  "VectorXcd \<Rightarrow> component \<Rightarrow> bool \<Rightarrow> error + (VectorXcd \<times> bool)" where
  "updateCurrentVector currentVector component isVoltageSource =
     (if typeid component = ACCurrentSource
      then bindE (vectorHandleACCurrentSource currentVector component)
             (\<lambda>v. Inr (v, isVoltageSource))
      else if typeid component = DCVoltageSource \<or> typeid component = ACVoltageSource
      then Inr (currentVector, True)
      else Inr (currentVector, isVoltageSource))"

fun currentStampLoop ::
  "component list \<Rightarrow> nat \<Rightarrow> VectorXcd \<Rightarrow> nat list \<Rightarrow> error + (VectorXcd \<times> nat list)" where
  "currentStampLoop [] i v voltageSources = Inr (v, voltageSources)"
| "currentStampLoop (c # cs) i v voltageSources =
     bindE (updateCurrentVector v c False) (\<lambda>(v', isVoltageSource).
       currentStampLoop cs (Suc i) v'
         (if isVoltageSource then voltageSources @ [i] else voltageSources))"

fun currentSourceLoop ::
  "component list \<Rightarrow> nat list \<Rightarrow> VectorXcd \<Rightarrow> error + VectorXcd" where
  "currentSourceLoop components [] v = Inr v"
| "currentSourceLoop components (i # is) v =
     bindE (elemAt components i ComponentIndexOutOfRange) (\<lambda>c.
     bindE (vectorHandleVoltageSource v c) (\<lambda>v'.
       currentSourceLoop components is v'))"

definition getCurrentVector :: "component list \<Rightarrow> nat \<Rightarrow> error + VectorXcd" where
  "getCurrentVector components numNodes =
     bindE (currentStampLoop components 0 (VectorZero numNodes) [])
       (\<lambda>(v, voltageSources).
          currentSourceLoop components [0 ..< length voltageSources] v)"

section \<open>Solving at one frequency\<close>

text \<open>
  The first two statements of \<open>solveAtFrequency\<close> assemble the system; the excitation
  vector is built without the frequency.
\<close>

definition assembleAtFrequency ::
  "component list \<Rightarrow> nat \<Rightarrow> real \<Rightarrow> error + (MatrixXcd \<times> VectorXcd)" where
  "assembleAtFrequency components numNodes angularFrequency =
     bindE (getConductanceMatrix components numNodes angularFrequency) (\<lambda>conductanceMatrix.
     bindE (getCurrentVector components numNodes) (\<lambda>currentVector.
     Inr (conductanceMatrix, currentVector)))"

text \<open>
  \<open>conductanceMatrix.colPivHouseholderQr().solve(currentVector)\<close> is Eigen's: the
  function \<open>qrSolve\<close> stands for it. It gives a vector for every matrix and right-hand
  side.
\<close>

definition solveAtFrequency ::
  "(MatrixXcd \<Rightarrow> VectorXcd \<Rightarrow> VectorXcd) \<Rightarrow> component list \<Rightarrow> nat \<Rightarrow> real \<Rightarrow> error + VectorXcd" where
  "solveAtFrequency qrSolve components numNodes angularFrequency =
     bindE (assembleAtFrequency components numNodes angularFrequency)
       (\<lambda>(conductanceMatrix, currentVector).
          Inr (qrSolve conductanceMatrix currentVector))"

section \<open>Double arithmetic\<close>

text \<open>
  The updates \<open>+=\<close> and \<open>-=\<close> of the source work on \<open>std::complex<double>\<close>: the real and
  the imaginary part of every sum and difference are rounded to a \<open>double\<close>. The
  functions of this section are the stamps and the assembly once more, with a rounding
  function \<open>rnd\<close> applied to every sum and difference that the source computes; the
  assignments of the source (\<open>= 1\<close>, \<open>= -1\<close>, \<open>= 0\<close>, \<open>= voltage\<close>) do not round.
  With the identity for \<open>rnd\<close> they are the functions of the sections above, which add
  and subtract exactly (\<open>getConductanceMatrixRounded_id\<close>, \<open>getCurrentVectorRounded_id\<close>). With \<open>roundComplex\<close> they compute as IEEE 754 binary64 does, as
  long as no result exceeds the largest \<open>double\<close> (infinities and NaN are not values of
  the model).
\<close>

text \<open>The nearest integer, the even one of the two when \<open>q\<close> lies half-way.\<close>

definition roundToEven :: "real \<Rightarrow> int" where
  "roundToEven q =
     (let f = \<lfloor>q\<rfloor> in
      if q - of_int f < 1 / 2 then f
      else if 1 / 2 < q - of_int f then f + 1
      else if even f then f else f + 1)"

text \<open>
  Rounding to the nearest \<open>double\<close>, ties to even: a \<open>double\<close> has 53 significant bits,
  so the unit in the last place of a number of binary exponent \<open>e\<close> is
  \<open>2 powr (e - 52)\<close>; the exponent is not less than \<open>- 1022\<close> (below, the numbers are
  subnormal).
\<close>

definition roundDouble :: "real \<Rightarrow> real" where
  "roundDouble x =
     (if x = 0 then 0
      else
        (let e = max \<lfloor>log 2 \<bar>x\<bar>\<rfloor> (- 1022);
             ulp = 2 powr (of_int e - 52)
         in of_int (roundToEven (x / ulp)) * ulp))"

definition roundComplex :: "complex \<Rightarrow> complex" where
  "roundComplex z = Complex (roundDouble (Re z)) (roundDouble (Im z))"

definition matrixHandleTwoTerminalComponentRounded ::
  "(complex \<Rightarrow> complex) \<Rightarrow> MatrixXcd \<Rightarrow> component \<Rightarrow> int list \<Rightarrow> real \<Rightarrow> error + MatrixXcd" where
  "matrixHandleTwoTerminalComponentRounded rnd conductanceMatrix component nodes angFreq =
     bindE
       (bindE (elemAt nodes 0 NodeIndexOutOfRange) (\<lambda>n0.
          if n0 \<noteq> 0
          then bindE (elemAt nodes (of_bool ((1::int) \<noteq> 0)) NodeIndexOutOfRange)
                 (\<lambda>n. Inr (n \<noteq> 0))
          else Inr False))
       (\<lambda>both.
     bindE
       (if both
        then bindE (elemAt nodes 0 NodeIndexOutOfRange) (\<lambda>n0.
             bindE (elemAt nodes 1 NodeIndexOutOfRange) (\<lambda>n1.
             bindE (matrixModify conductanceMatrix (n0 - 1) (n1 - 1)
                      (\<lambda>x. rnd (x - getConductance component n0 n1 angFreq))) (\<lambda>m.
             matrixModify m (n1 - 1) (n0 - 1)
                      (\<lambda>x. rnd (x - getConductance component n1 n0 angFreq)))))
        else Inr conductanceMatrix)
       (\<lambda>m1.
     bindE (elemAt nodes 0 NodeIndexOutOfRange) (\<lambda>n0.
     bindE
       (if n0 \<noteq> 0
        then bindE (elemAt nodes 1 NodeIndexOutOfRange) (\<lambda>n1.
             matrixModify m1 (n0 - 1) (n0 - 1)
               (\<lambda>x. rnd (x + getConductance component n0 n1 angFreq)))
        else Inr m1)
       (\<lambda>m2.
     bindE (elemAt nodes 1 NodeIndexOutOfRange) (\<lambda>n1.
       if n1 \<noteq> 0
       then bindE (elemAt nodes 0 NodeIndexOutOfRange) (\<lambda>n0'.
            matrixModify m2 (n1 - 1) (n1 - 1)
              (\<lambda>x. rnd (x + getConductance component n1 n0' angFreq)))
       else Inr m2)))))"

text \<open>\<open>m.row(i) -= m.row(i)\<close>, rounded.\<close>

definition matrixRowSubSelfRounded ::
  "(complex \<Rightarrow> complex) \<Rightarrow> MatrixXcd \<Rightarrow> int \<Rightarrow> error + MatrixXcd" where
  "matrixRowSubSelfRounded rnd m i =
     (if inRange i (length m)
      then Inr (m[nat i := map (\<lambda>x. rnd (x - x)) (m ! nat i)])
      else Inl MatrixIndexOutOfRange)"

definition matrixHandleVoltageSourceRounded ::
  "(complex \<Rightarrow> complex) \<Rightarrow> MatrixXcd \<Rightarrow> component \<Rightarrow> error + MatrixXcd" where
  "matrixHandleVoltageSourceRounded rnd conductanceMatrix component =
     (let nodes = getNodes component in
      bindE (elemAt nodes 0 NodeIndexOutOfRange) (\<lambda>nodePlus.
      bindE (elemAt nodes 1 NodeIndexOutOfRange) (\<lambda>nodeMinus.
        if nodePlus = nodeMinus then Inr conductanceMatrix
        else if nodePlus \<noteq> 0 \<and> nodeMinus \<noteq> 0 then
          bindE (matrixRowSubSelfRounded rnd conductanceMatrix (nodePlus - 1)) (\<lambda>m1.
          bindE (matrixModify m1 (nodePlus - 1) (nodePlus - 1) (\<lambda>_. 1)) (\<lambda>m2.
          matrixModify m2 (nodePlus - 1) (nodeMinus - 1) (\<lambda>_. - 1)))
        else if nodePlus \<noteq> 0 \<and> nodeMinus = 0 then
          bindE (matrixRowSubSelfRounded rnd conductanceMatrix (nodePlus - 1)) (\<lambda>m1.
          matrixModify m1 (nodePlus - 1) (nodePlus - 1) (\<lambda>_. 1))
        else if nodePlus = 0 \<and> nodeMinus \<noteq> 0 then
          bindE (matrixRowSubSelfRounded rnd conductanceMatrix (nodeMinus - 1)) (\<lambda>m1.
          matrixModify m1 (nodeMinus - 1) (nodeMinus - 1) (\<lambda>_. - 1))
        else Inr conductanceMatrix)))"

definition updateConductanceMatrixRounded ::
  "(complex \<Rightarrow> complex) \<Rightarrow> MatrixXcd \<Rightarrow> component \<Rightarrow> bool \<Rightarrow> real \<Rightarrow> error + (MatrixXcd \<times> bool)" where
  "updateConductanceMatrixRounded rnd conductanceMatrix component isVoltageSource angFreq =
     (if typeid component = DCCurrentSource \<or> typeid component = ACCurrentSource
      then Inr (conductanceMatrix, isVoltageSource)
      else if typeid component = DCVoltageSource \<or> typeid component = ACVoltageSource
      then Inr (conductanceMatrix, True)
      else
        (let nodes = getNodes component in
         if length nodes = 2
         then bindE (matrixHandleTwoTerminalComponentRounded rnd conductanceMatrix component
                       nodes angFreq)
                (\<lambda>m. Inr (m, isVoltageSource))
         else Inr (conductanceMatrix, isVoltageSource)))"

fun conductanceStampLoopRounded ::
  "(complex \<Rightarrow> complex) \<Rightarrow> component list \<Rightarrow> nat \<Rightarrow> real \<Rightarrow> MatrixXcd \<Rightarrow> nat list \<Rightarrow>
     error + (MatrixXcd \<times> nat list)" where
  "conductanceStampLoopRounded rnd [] i angFreq m voltageSources = Inr (m, voltageSources)"
| "conductanceStampLoopRounded rnd (c # cs) i angFreq m voltageSources =
     bindE (updateConductanceMatrixRounded rnd m c False angFreq) (\<lambda>(m', isVoltageSource).
       conductanceStampLoopRounded rnd cs (Suc i) angFreq m'
         (if isVoltageSource then voltageSources @ [i] else voltageSources))"

fun conductanceSourceLoopRounded ::
  "(complex \<Rightarrow> complex) \<Rightarrow> component list \<Rightarrow> nat list \<Rightarrow> MatrixXcd \<Rightarrow> error + MatrixXcd" where
  "conductanceSourceLoopRounded rnd components [] m = Inr m"
| "conductanceSourceLoopRounded rnd components (i # is) m =
     bindE (elemAt components i ComponentIndexOutOfRange) (\<lambda>c.
     bindE (matrixHandleVoltageSourceRounded rnd m c) (\<lambda>m'.
       conductanceSourceLoopRounded rnd components is m'))"

definition getConductanceMatrixRounded ::
  "(complex \<Rightarrow> complex) \<Rightarrow> component list \<Rightarrow> nat \<Rightarrow> real \<Rightarrow> error + MatrixXcd" where
  "getConductanceMatrixRounded rnd components numNodes angFreq =
     bindE (conductanceStampLoopRounded rnd components 0 angFreq
              (MatrixZero numNodes numNodes) [])
       (\<lambda>(m, voltageSources).
          conductanceSourceLoopRounded rnd components [0 ..< length voltageSources] m)"

definition vectorHandleACCurrentSourceRounded ::
  "(complex \<Rightarrow> complex) \<Rightarrow> VectorXcd \<Rightarrow> component \<Rightarrow> error + VectorXcd" where
  "vectorHandleACCurrentSourceRounded rnd currentVector component =
     (let nodes = getNodes component in
      bindE (elemAt (getProperties component) 0 PropertyIndexOutOfRange) (\<lambda>amplitude.
      bindE (elemAt (getProperties component) 1 PropertyIndexOutOfRange) (\<lambda>phase.
      let current = rcis amplitude phase in
      bindE (elemAt nodes 0 NodeIndexOutOfRange) (\<lambda>n0.
      bindE (if n0 \<noteq> 0 then vectorModify currentVector (n0 - 1) (\<lambda>x. rnd (x - current))
             else Inr currentVector) (\<lambda>v1.
      bindE (elemAt nodes 1 NodeIndexOutOfRange) (\<lambda>n1.
        if n1 \<noteq> 0 then vectorModify v1 (n1 - 1) (\<lambda>x. rnd (x + current))
        else Inr v1))))))"

definition updateCurrentVectorRounded ::
  "(complex \<Rightarrow> complex) \<Rightarrow> VectorXcd \<Rightarrow> component \<Rightarrow> bool \<Rightarrow> error + (VectorXcd \<times> bool)" where
  "updateCurrentVectorRounded rnd currentVector component isVoltageSource =
     (if typeid component = ACCurrentSource
      then bindE (vectorHandleACCurrentSourceRounded rnd currentVector component)
             (\<lambda>v. Inr (v, isVoltageSource))
      else if typeid component = DCVoltageSource \<or> typeid component = ACVoltageSource
      then Inr (currentVector, True)
      else Inr (currentVector, isVoltageSource))"

fun currentStampLoopRounded ::
  "(complex \<Rightarrow> complex) \<Rightarrow> component list \<Rightarrow> nat \<Rightarrow> VectorXcd \<Rightarrow> nat list \<Rightarrow>
     error + (VectorXcd \<times> nat list)" where
  "currentStampLoopRounded rnd [] i v voltageSources = Inr (v, voltageSources)"
| "currentStampLoopRounded rnd (c # cs) i v voltageSources =
     bindE (updateCurrentVectorRounded rnd v c False) (\<lambda>(v', isVoltageSource).
       currentStampLoopRounded rnd cs (Suc i) v'
         (if isVoltageSource then voltageSources @ [i] else voltageSources))"

text \<open>
  \<open>vectorHandleVoltageSource\<close> assigns and neither adds nor subtracts: the second loop
  of \<open>getCurrentVector\<close> is the one above.
\<close>

definition getCurrentVectorRounded ::
  "(complex \<Rightarrow> complex) \<Rightarrow> component list \<Rightarrow> nat \<Rightarrow> error + VectorXcd" where
  "getCurrentVectorRounded rnd components numNodes =
     bindE (currentStampLoopRounded rnd components 0 (VectorZero numNodes) [])
       (\<lambda>(v, voltageSources).
          currentSourceLoop components [0 ..< length voltageSources] v)"

section \<open>Notions used in the statements\<close>

text \<open>A matrix has size \<open>n\<close> when it has \<open>n\<close> rows of \<open>n\<close> coefficients each.\<close>

definition hasSize :: "MatrixXcd \<Rightarrow> nat \<Rightarrow> bool" where
  "hasSize m n \<longleftrightarrow> length m = n \<and> list_all (\<lambda>row. length row = n) m"

text \<open>
  The voltage sources and the current sources, as the \<open>typeid\<close> tests of the
  source tell them apart.
\<close>

definition voltageSourceType :: "componentType \<Rightarrow> bool" where
  "voltageSourceType t \<longleftrightarrow> t = DCVoltageSource \<or> t = ACVoltageSource"

definition currentSourceType :: "componentType \<Rightarrow> bool" where
  "currentSourceType t \<longleftrightarrow> t = DCCurrentSource \<or> t = ACCurrentSource"

text \<open>
  A DC voltage source of \<open>V\<close> volts and an AC voltage source of a given amplitude and
  phase, between the nodes \<open>nPlus\<close> and \<open>nMinus\<close>: the handlers read the voltage,
  or the amplitude and the phase, from the properties and the two nodes from the node
  list.
\<close>

definition dcVoltageSource :: "component \<Rightarrow> real \<Rightarrow> int \<Rightarrow> int \<Rightarrow> bool" where
  "dcVoltageSource c V nPlus nMinus \<longleftrightarrow>
     typeid c = DCVoltageSource \<and> getProperties c = [V] \<and> getNodes c = [nPlus, nMinus]"

definition acVoltageSource :: "component \<Rightarrow> real \<Rightarrow> real \<Rightarrow> int \<Rightarrow> int \<Rightarrow> bool" where
  "acVoltageSource c amplitude phase nPlus nMinus \<longleftrightarrow>
     typeid c = ACVoltageSource \<and> getProperties c = [amplitude, phase] \<and>
     getNodes c = [nPlus, nMinus]"

text \<open>
  The components that \<open>updateConductanceMatrix\<close> hands to the two-terminal handler:
  those that are not sources and have exactly two nodes.
\<close>

definition twoTerminalRouted :: "component \<Rightarrow> bool" where
  "twoTerminalRouted c \<longleftrightarrow>
     \<not> currentSourceType (typeid c) \<and> \<not> voltageSourceType (typeid c) \<and> length (getNodes c) = 2"

text \<open>Every node id of the component lies in \<open>0..n\<close>.\<close>

definition nodesInRange :: "nat \<Rightarrow> component \<Rightarrow> bool" where
  "nodesInRange n c \<longleftrightarrow> list_all (\<lambda>x. 0 \<le> x \<and> x \<le> int n) (getNodes c)"

text \<open>
  The component can be handed to a voltage-source handler: it has two nodes at least,
  and the two that the handler reads lie in \<open>0..n\<close>. Its properties can be read by
  \<open>vectorHandleVoltageSource\<close>: one property for a DC voltage source, two for any
  other component.
\<close>

definition sourceRoutable :: "nat \<Rightarrow> component \<Rightarrow> bool" where
  "sourceRoutable n c \<longleftrightarrow>
     2 \<le> length (getNodes c) \<and>
     0 \<le> getNodes c ! 0 \<and> getNodes c ! 0 \<le> int n \<and>
     0 \<le> getNodes c ! 1 \<and> getNodes c ! 1 \<le> int n"

definition sourceProperties :: "component \<Rightarrow> bool" where
  "sourceProperties c \<longleftrightarrow>
     (if typeid c = DCVoltageSource then 1 \<le> length (getProperties c)
      else 2 \<le> length (getProperties c))"

text \<open>
  The contribution of a two-terminal admittance between the nodes \<open>a\<close> and \<open>b\<close> to the
  coefficient at row \<open>r\<close> and column \<open>k\<close>: what the four updates of the stamp add up to.
  \<open>matrixStamp\<close> is the contribution of any component that is not a voltage source,
  and \<open>matrixStampable\<close> says that its updates stay inside a matrix of size \<open>n\<close>.
\<close>

definition twoTerminalStamp :: "int \<Rightarrow> int \<Rightarrow> complex \<Rightarrow> complex \<Rightarrow> nat \<Rightarrow> nat \<Rightarrow> complex" where
  "twoTerminalStamp a b yab yba r k =
     (if a \<noteq> 0 \<and> int r = a - 1 \<and> int k = a - 1 then yab else 0)
   + (if b \<noteq> 0 \<and> int r = b - 1 \<and> int k = b - 1 then yba else 0)
   - (if a \<noteq> 0 \<and> b \<noteq> 0 \<and> int r = a - 1 \<and> int k = b - 1 then yab else 0)
   - (if a \<noteq> 0 \<and> b \<noteq> 0 \<and> int r = b - 1 \<and> int k = a - 1 then yba else 0)"

definition matrixStamp :: "component \<Rightarrow> real \<Rightarrow> nat \<Rightarrow> nat \<Rightarrow> complex" where
  "matrixStamp c w r k =
     (if twoTerminalRouted c
      then twoTerminalStamp (getNodes c ! 0) (getNodes c ! 1)
             (getConductance c (getNodes c ! 0) (getNodes c ! 1) w)
             (getConductance c (getNodes c ! 1) (getNodes c ! 0) w) r k
      else 0)"

definition matrixStampable :: "nat \<Rightarrow> component \<Rightarrow> bool" where
  "matrixStampable n c \<longleftrightarrow> (if twoTerminalRouted c then nodesInRange n c else True)"

text \<open>
  The contribution of a current \<open>current\<close> drawn from \<open>nIn\<close> and fed into \<open>nOut\<close>
  to the entry \<open>k\<close> of the excitation vector. \<open>vectorStamp\<close> is the contribution of
  any component that is not a voltage source (only an AC current source has one), and
  \<open>vectorStampable\<close> says that its stamp reads and writes in range.
\<close>

definition currentStamp :: "int \<Rightarrow> int \<Rightarrow> complex \<Rightarrow> nat \<Rightarrow> complex" where
  "currentStamp nIn nOut current k =
     (if nOut \<noteq> 0 \<and> int k = nOut - 1 then current else 0)
   - (if nIn \<noteq> 0 \<and> int k = nIn - 1 then current else 0)"

definition vectorStamp :: "component \<Rightarrow> nat \<Rightarrow> complex" where
  "vectorStamp c k =
     (if typeid c = ACCurrentSource
      then currentStamp (getNodes c ! 0) (getNodes c ! 1)
             (rcis (getProperties c ! 0) (getProperties c ! 1)) k
      else 0)"

definition vectorStampable :: "nat \<Rightarrow> component \<Rightarrow> bool" where
  "vectorStampable n c \<longleftrightarrow>
     (if typeid c = ACCurrentSource
      then 2 \<le> length (getProperties c) \<and> 2 \<le> length (getNodes c) \<and>
           0 \<le> getNodes c ! 0 \<and> getNodes c ! 0 \<le> int n \<and>
           0 \<le> getNodes c ! 1 \<and> getNodes c ! 1 \<le> int n
      else True)"

text \<open>
  A linear two-terminal admittance at the angular frequency \<open>w\<close>: a component that is
  not a source, has two nodes and the same conductance in both directions. Its
  admittance is that conductance.
\<close>

definition linearAdmittance :: "component \<Rightarrow> real \<Rightarrow> bool" where
  "linearAdmittance c w \<longleftrightarrow>
     twoTerminalRouted c \<and>
     getConductance c (getNodes c ! 0) (getNodes c ! 1) w =
     getConductance c (getNodes c ! 1) (getNodes c ! 0) w"

definition admittance :: "component \<Rightarrow> real \<Rightarrow> complex" where
  "admittance c w = getConductance c (getNodes c ! 0) (getNodes c ! 1) w"

text \<open>
  The rounded stamps, coefficient by coefficient. \<open>twoTerminalEntry\<close> is what the four
  updates of the two-terminal stamp, in the order of the source, make of the coefficient
  \<open>x\<close> at row \<open>r\<close> and column \<open>k\<close>; \<open>matrixEntry\<close> is what the stamp of a
  component that is not a voltage source makes of it. \<open>currentEntry\<close> and
  \<open>vectorEntry\<close> are the same for an entry of the excitation vector. \<open>stepIf\<close> is one
  update that is made or left out.
\<close>

definition stepIf :: "bool \<Rightarrow> ('a \<Rightarrow> 'a) \<Rightarrow> 'a \<Rightarrow> 'a" where
  "stepIf p f x = (if p then f x else x)"

definition twoTerminalEntry ::
  "(complex \<Rightarrow> complex) \<Rightarrow> int \<Rightarrow> int \<Rightarrow> complex \<Rightarrow> complex \<Rightarrow> nat \<Rightarrow> nat \<Rightarrow> complex \<Rightarrow> complex" where
  "twoTerminalEntry rnd a b yab yba r k x =
     (let x1 = (if a \<noteq> 0 \<and> b \<noteq> 0 \<and> int r = a - 1 \<and> int k = b - 1 then rnd (x - yab) else x);
          x2 = (if a \<noteq> 0 \<and> b \<noteq> 0 \<and> int r = b - 1 \<and> int k = a - 1 then rnd (x1 - yba) else x1);
          x3 = (if a \<noteq> 0 \<and> int r = a - 1 \<and> int k = a - 1 then rnd (x2 + yab) else x2)
      in if b \<noteq> 0 \<and> int r = b - 1 \<and> int k = b - 1 then rnd (x3 + yba) else x3)"

definition matrixEntry ::
  "(complex \<Rightarrow> complex) \<Rightarrow> real \<Rightarrow> nat \<Rightarrow> nat \<Rightarrow> component \<Rightarrow> complex \<Rightarrow> complex" where
  "matrixEntry rnd w r k c x =
     (if twoTerminalRouted c
      then twoTerminalEntry rnd (getNodes c ! 0) (getNodes c ! 1)
             (getConductance c (getNodes c ! 0) (getNodes c ! 1) w)
             (getConductance c (getNodes c ! 1) (getNodes c ! 0) w) r k x
      else x)"



text \<open>
  What the stamp of a linear two-terminal admittance makes of the diagonal coefficient
  \<open>x\<close> of node \<open>i + 1\<close>: with one terminal on the node the admittance is added; with
  both terminals on the node it is subtracted twice and added twice, every sum and
  difference rounded; with no terminal on the node the coefficient is left as it is.
\<close>

definition diagonalEntry ::
  "(complex \<Rightarrow> complex) \<Rightarrow> real \<Rightarrow> nat \<Rightarrow> component \<Rightarrow> complex \<Rightarrow> complex" where
  "diagonalEntry rnd w i c x =
     (let y = admittance c w in
      if getNodes c ! 0 = int i + 1 \<and> getNodes c ! 1 = int i + 1
      then rnd (rnd (rnd (rnd (x - y) - y) + y) + y)
      else if getNodes c ! 0 = int i + 1 \<or> getNodes c ! 1 = int i + 1
      then rnd (x + y)
      else x)"


text \<open>
  Components for the concrete instances: a two-terminal device of constant admittance, a
  source with its properties and its two nodes, and a voltage-controlled current source
  with its four nodes.
\<close>

definition exampleAdmittance :: "componentType \<Rightarrow> int \<Rightarrow> int \<Rightarrow> complex \<Rightarrow> component" where
  "exampleAdmittance t n1 n2 y =
     \<lparr>getName = ''Y'', typeid = t, getNodes = [n1, n2],
      getConductance = (\<lambda>_ _ _. y), getProperties = []\<rparr>"

definition exampleSource :: "componentType \<Rightarrow> real list \<Rightarrow> int \<Rightarrow> int \<Rightarrow> component" where
  "exampleSource t properties n1 n2 =
     \<lparr>getName = ''S'', typeid = t, getNodes = [n1, n2],
      getConductance = (\<lambda>_ _ _. 0), getProperties = properties\<rparr>"

definition exampleControlledSource :: "real \<Rightarrow> int \<Rightarrow> int \<Rightarrow> int \<Rightarrow> int \<Rightarrow> component" where
  "exampleControlledSource gm nIn nOut cIn cOut =
     \<lparr>getName = ''G'', typeid = VoltageControlledCurrentSource,
      getNodes = [nIn, nOut, cIn, cOut],
      getConductance = (\<lambda>_ _ _. complex_of_real gm), getProperties = [gm]\<rparr>"

text \<open>
  A solver for the concrete instances. It returns the zero vector, which is the
  least-squares solution of a system with a zero right-hand side.
\<close>

definition exampleSolver :: "MatrixXcd \<Rightarrow> VectorXcd \<Rightarrow> VectorXcd" where
  "exampleSolver conductanceMatrix currentVector = map (\<lambda>_. 0) currentVector"

section \<open>Basic facts\<close>

lemma bindE_Inl [simp]: "bindE (Inl e) f = Inl e"
  by (simp add: bindE_def)

lemma bindE_Inr [simp]: "bindE (Inr x) f = f x"
  by (simp add: bindE_def)

lemma elemAt_less [simp]: "i < length xs \<Longrightarrow> elemAt xs i e = Inr (xs ! i)"
  by (simp add: elemAt_def)

lemma elemAt_ge [simp]: "\<not> i < length xs \<Longrightarrow> elemAt xs i e = Inl e"
  by (simp add: elemAt_def)

lemma hasSize_length: "hasSize m n \<Longrightarrow> length m = n"
  by (simp add: hasSize_def)

lemma hasSize_row: "hasSize m n \<Longrightarrow> r < n \<Longrightarrow> length (m ! r) = n"
  by (simp add: hasSize_def list_all_length)

lemma hasSize_MatrixZero: "hasSize (MatrixZero n n) n"
  by (simp add: hasSize_def MatrixZero_def list_all_length)

lemma hasSize_update: "hasSize m n \<Longrightarrow> length row = n \<Longrightarrow> hasSize (m[r := row]) n"
  by (cases "r < length m") (auto simp add: hasSize_def list_all_length nth_list_update)

lemma matrix_eqI:
  assumes "hasSize m n" and "hasSize m' n"
    and "\<And>r k. r < n \<Longrightarrow> k < n \<Longrightarrow> m ! r ! k = m' ! r ! k"
  shows "m = m'"
proof (rule nth_equalityI)
  show "length m = length m'"
    using assms(1,2) by (simp add: hasSize_length)
next
  fix r assume "r < length m"
  then have r: "r < n" using assms(1) by (simp add: hasSize_length)
  show "m ! r = m' ! r"
  proof (rule nth_equalityI)
    show "length (m ! r) = length (m' ! r)"
      using assms(1,2) r by (simp add: hasSize_row)
  next
    fix k assume "k < length (m ! r)"
    then have "k < n" using assms(1) r by (simp add: hasSize_row)
    then show "m ! r ! k = m' ! r ! k" using r assms(3) by simp
  qed
qed

lemma matrixModify_ok:
  assumes "hasSize m n" and "inRange i n" and "inRange j n"
  shows "\<exists>m'. matrixModify m i j f = Inr m' \<and> hasSize m' n \<and>
           (\<forall>r<n. \<forall>k<n. m' ! r ! k = (if int r = i \<and> int k = j then f (m ! r ! k) else m ! r ! k))"
proof -
  let ?m' = "m[nat i := (m ! nat i)[nat j := f (m ! nat i ! nat j)]]"
  have i: "nat i < n" "0 \<le> i" and j: "nat j < n" "0 \<le> j"
    using assms(2,3) by (auto simp add: inRange_def)
  have len: "length m = n" "length (m ! nat i) = n"
    using assms(1) i by (simp_all add: hasSize_length hasSize_row)
  have "matrixModify m i j f = Inr ?m'"
    using assms(2,3) len by (simp add: matrixModify_def)
  moreover have "hasSize ?m' n"
    using assms(1) len by (simp add: hasSize_update)
  moreover have "\<forall>r<n. \<forall>k<n. ?m' ! r ! k = (if int r = i \<and> int k = j then f (m ! r ! k) else m ! r ! k)"
    using i j len by (auto simp add: nth_list_update)
  ultimately show ?thesis by blast
qed

lemma matrixModify_fail:
  assumes "hasSize m n" and "\<not> (inRange i n \<and> inRange j n)"
  shows "matrixModify m i j f = Inl MatrixIndexOutOfRange"
proof (cases "inRange i n")
  case True
  then have "nat i < n" by (auto simp add: inRange_def)
  then have "length (m ! nat i) = n" using assms(1) by (simp add: hasSize_row)
  then show ?thesis using assms True by (simp add: matrixModify_def hasSize_length)
next
  case False
  then show ?thesis using assms(1) by (simp add: matrixModify_def hasSize_length)
qed

lemma matrixModify_add:
  assumes "hasSize m n" and "inRange i n" and "inRange j n"
  shows "\<exists>m'. matrixModify m i j (\<lambda>x. x + v) = Inr m' \<and> hasSize m' n \<and>
           (\<forall>r<n. \<forall>k<n. m' ! r ! k = m ! r ! k + (if int r = i \<and> int k = j then v else 0))"
  using matrixModify_ok [OF assms, of "\<lambda>x. x + v"] by auto

lemma matrixModify_sub:
  assumes "hasSize m n" and "inRange i n" and "inRange j n"
  shows "\<exists>m'. matrixModify m i j (\<lambda>x. x - v) = Inr m' \<and> hasSize m' n \<and>
           (\<forall>r<n. \<forall>k<n. m' ! r ! k = m ! r ! k - (if int r = i \<and> int k = j then v else 0))"
  using matrixModify_ok [OF assms, of "\<lambda>x. x - v"] by auto

lemma inRange_node: "0 \<le> a \<Longrightarrow> a \<le> int n \<Longrightarrow> a \<noteq> 0 \<Longrightarrow> inRange (a - 1) n"
  by (simp add: inRange_def)

lemma inRange_nodeD: "a \<noteq> 0 \<Longrightarrow> inRange (a - 1) n \<Longrightarrow> 0 \<le> a \<and> a \<le> int n"
  by (simp add: inRange_def)

lemma twoTerminal_unfold:
  assumes "1 < length nodes" and "a = nodes ! 0" and "b = nodes ! 1"
  shows "matrixHandleTwoTerminalComponent m c nodes w =
     bindE (if a \<noteq> 0 \<and> b \<noteq> 0
            then bindE (matrixModify m (a - 1) (b - 1) (\<lambda>x. x - getConductance c a b w))
                   (\<lambda>m'. matrixModify m' (b - 1) (a - 1) (\<lambda>x. x - getConductance c b a w))
            else Inr m)
       (\<lambda>m1. bindE (if a \<noteq> 0 then matrixModify m1 (a - 1) (a - 1) (\<lambda>x. x + getConductance c a b w)
                     else Inr m1)
       (\<lambda>m2. if b \<noteq> 0 then matrixModify m2 (b - 1) (b - 1) (\<lambda>x. x + getConductance c b a w)
              else Inr m2))"
proof -
  have e: "elemAt nodes 0 NodeIndexOutOfRange = Inr a"
    "elemAt nodes 1 NodeIndexOutOfRange = Inr b"
    "elemAt nodes (of_bool ((1::int) \<noteq> 0)) NodeIndexOutOfRange = Inr b"
  proof -
    have "0 < length nodes" using assms(1) by arith
    then show "elemAt nodes 0 NodeIndexOutOfRange = Inr a"
      using assms(2) by (simp add: elemAt_def)
    show "elemAt nodes 1 NodeIndexOutOfRange = Inr b"
      using assms(1,3) by (simp add: elemAt_def)
    then show "elemAt nodes (of_bool ((1::int) \<noteq> 0)) NodeIndexOutOfRange = Inr b"
      by simp
  qed
  show ?thesis
    unfolding matrixHandleTwoTerminalComponent_def e
    by (cases "a = 0"; cases "b = 0"; simp)
qed

lemma twoTerminal_ok:
  assumes size: "hasSize m n" and len: "1 < length nodes"
    and a: "a = nodes ! 0" "0 \<le> a" "a \<le> int n"
    and b: "b = nodes ! 1" "0 \<le> b" "b \<le> int n"
  shows "\<exists>m'. matrixHandleTwoTerminalComponent m c nodes w = Inr m' \<and> hasSize m' n \<and>
           (\<forall>r<n. \<forall>k<n. m' ! r ! k = m ! r ! k +
              twoTerminalStamp a b (getConductance c a b w) (getConductance c b a w) r k)"
proof -
  let ?yab = "getConductance c a b w" and ?yba = "getConductance c b a w"
  note unf = twoTerminal_unfold [OF len a(1) b(1)]
  obtain m1 where m1:
    "(if a \<noteq> 0 \<and> b \<noteq> 0
      then bindE (matrixModify m (a - 1) (b - 1) (\<lambda>x. x - ?yab))
             (\<lambda>m'. matrixModify m' (b - 1) (a - 1) (\<lambda>x. x - ?yba))
      else Inr m) = Inr m1"
    "hasSize m1 n"
    "\<forall>r<n. \<forall>k<n. m1 ! r ! k = m ! r ! k
        - (if a \<noteq> 0 \<and> b \<noteq> 0 \<and> int r = a - 1 \<and> int k = b - 1 then ?yab else 0)
        - (if a \<noteq> 0 \<and> b \<noteq> 0 \<and> int r = b - 1 \<and> int k = a - 1 then ?yba else 0)"
  proof (cases "a \<noteq> 0 \<and> b \<noteq> 0")
    case True
    then have ra: "inRange (a - 1) n" and rb: "inRange (b - 1) n"
      using a b by (simp_all add: inRange_node)
    obtain x where x: "matrixModify m (a - 1) (b - 1) (\<lambda>x. x - ?yab) = Inr x" "hasSize x n"
      "\<forall>r<n. \<forall>k<n. x ! r ! k = m ! r ! k - (if int r = a - 1 \<and> int k = b - 1 then ?yab else 0)"
      using matrixModify_sub [OF size ra rb] by blast
    obtain y where y: "matrixModify x (b - 1) (a - 1) (\<lambda>x. x - ?yba) = Inr y" "hasSize y n"
      "\<forall>r<n. \<forall>k<n. y ! r ! k = x ! r ! k - (if int r = b - 1 \<and> int k = a - 1 then ?yba else 0)"
      using matrixModify_sub [OF x(2) rb ra] by blast
    show ?thesis
    proof (rule that [of y])
      show "(if a \<noteq> 0 \<and> b \<noteq> 0
        then bindE (matrixModify m (a - 1) (b - 1) (\<lambda>x. x - ?yab))
               (\<lambda>m'. matrixModify m' (b - 1) (a - 1) (\<lambda>x. x - ?yba))
        else Inr m) = Inr y"
        using True x(1) y(1) by simp
      show "hasSize y n" by (rule y(2))
      show "\<forall>r<n. \<forall>k<n. y ! r ! k = m ! r ! k
        - (if a \<noteq> 0 \<and> b \<noteq> 0 \<and> int r = a - 1 \<and> int k = b - 1 then ?yab else 0)
        - (if a \<noteq> 0 \<and> b \<noteq> 0 \<and> int r = b - 1 \<and> int k = a - 1 then ?yba else 0)"
        using True x(3) y(3) by simp
    qed
  next
    case False
    have none: "(if a \<noteq> 0 \<and> b \<noteq> 0 then x else y) = y" for x y :: "'z"
      using False by (cases "a = 0") simp_all
    have none': "(if a \<noteq> 0 \<and> b \<noteq> 0 \<and> P then x else y) = y" for x y :: "'z" and P
      using False by (cases "a = 0") simp_all
    show ?thesis
    proof (rule that [of m])
      show "(if a \<noteq> 0 \<and> b \<noteq> 0
        then bindE (matrixModify m (a - 1) (b - 1) (\<lambda>x. x - ?yab))
               (\<lambda>m'. matrixModify m' (b - 1) (a - 1) (\<lambda>x. x - ?yba))
        else Inr m) = Inr m"
        by (simp only: none)
      show "hasSize m n" by (rule size)
      show "\<forall>r<n. \<forall>k<n. m ! r ! k = m ! r ! k
        - (if a \<noteq> 0 \<and> b \<noteq> 0 \<and> int r = a - 1 \<and> int k = b - 1 then ?yab else 0)
        - (if a \<noteq> 0 \<and> b \<noteq> 0 \<and> int r = b - 1 \<and> int k = a - 1 then ?yba else 0)"
        by (simp only: none' diff_zero simp_thms)
    qed
  qed
  obtain m2 where m2:
    "(if a \<noteq> 0 then matrixModify m1 (a - 1) (a - 1) (\<lambda>x. x + ?yab) else Inr m1) = Inr m2"
    "hasSize m2 n"
    "\<forall>r<n. \<forall>k<n. m2 ! r ! k = m1 ! r ! k
        + (if a \<noteq> 0 \<and> int r = a - 1 \<and> int k = a - 1 then ?yab else 0)"
  proof (cases "a \<noteq> 0")
    case True
    then have ra: "inRange (a - 1) n" using a by (simp add: inRange_node)
    obtain x where x: "matrixModify m1 (a - 1) (a - 1) (\<lambda>x. x + ?yab) = Inr x" "hasSize x n"
      "\<forall>r<n. \<forall>k<n. x ! r ! k = m1 ! r ! k + (if int r = a - 1 \<and> int k = a - 1 then ?yab else 0)"
      using matrixModify_add [OF m1(2) ra ra] by blast
    show ?thesis
    proof (rule that [of x])
      show "(if a \<noteq> 0 then matrixModify m1 (a - 1) (a - 1) (\<lambda>x. x + ?yab) else Inr m1) = Inr x"
        using True x(1) by simp
      show "hasSize x n" by (rule x(2))
      show "\<forall>r<n. \<forall>k<n. x ! r ! k = m1 ! r ! k
        + (if a \<noteq> 0 \<and> int r = a - 1 \<and> int k = a - 1 then ?yab else 0)"
        using True x(3) by simp
    qed
  next
    case False
    show ?thesis
    proof (rule that [of m1])
      show "(if a \<noteq> 0 then matrixModify m1 (a - 1) (a - 1) (\<lambda>x. x + ?yab) else Inr m1) = Inr m1"
        using False by simp
      show "hasSize m1 n" by (rule m1(2))
      show "\<forall>r<n. \<forall>k<n. m1 ! r ! k = m1 ! r ! k
        + (if a \<noteq> 0 \<and> int r = a - 1 \<and> int k = a - 1 then ?yab else 0)"
        using False by simp
    qed
  qed
  obtain m3 where m3:
    "(if b \<noteq> 0 then matrixModify m2 (b - 1) (b - 1) (\<lambda>x. x + ?yba) else Inr m2) = Inr m3"
    "hasSize m3 n"
    "\<forall>r<n. \<forall>k<n. m3 ! r ! k = m2 ! r ! k
        + (if b \<noteq> 0 \<and> int r = b - 1 \<and> int k = b - 1 then ?yba else 0)"
  proof (cases "b \<noteq> 0")
    case True
    then have rb: "inRange (b - 1) n" using b by (simp add: inRange_node)
    obtain x where x: "matrixModify m2 (b - 1) (b - 1) (\<lambda>x. x + ?yba) = Inr x" "hasSize x n"
      "\<forall>r<n. \<forall>k<n. x ! r ! k = m2 ! r ! k + (if int r = b - 1 \<and> int k = b - 1 then ?yba else 0)"
      using matrixModify_add [OF m2(2) rb rb] by blast
    show ?thesis
    proof (rule that [of x])
      show "(if b \<noteq> 0 then matrixModify m2 (b - 1) (b - 1) (\<lambda>x. x + ?yba) else Inr m2) = Inr x"
        using True x(1) by simp
      show "hasSize x n" by (rule x(2))
      show "\<forall>r<n. \<forall>k<n. x ! r ! k = m2 ! r ! k
        + (if b \<noteq> 0 \<and> int r = b - 1 \<and> int k = b - 1 then ?yba else 0)"
        using True x(3) by simp
    qed
  next
    case False
    show ?thesis
    proof (rule that [of m2])
      show "(if b \<noteq> 0 then matrixModify m2 (b - 1) (b - 1) (\<lambda>x. x + ?yba) else Inr m2) = Inr m2"
        using False by simp
      show "hasSize m2 n" by (rule m2(2))
      show "\<forall>r<n. \<forall>k<n. m2 ! r ! k = m2 ! r ! k
        + (if b \<noteq> 0 \<and> int r = b - 1 \<and> int k = b - 1 then ?yba else 0)"
        using False by simp
    qed
  qed
  have "matrixHandleTwoTerminalComponent m c nodes w = Inr m3"
    unfolding unf using m1(1) m2(1) m3(1) by simp
  moreover have "\<forall>r<n. \<forall>k<n. m3 ! r ! k = m ! r ! k + twoTerminalStamp a b ?yab ?yba r k"
    using m1(3) m2(3) m3(3) by (simp add: twoTerminalStamp_def)
  ultimately show ?thesis using m3(2) by blast
qed

lemma twoTerminal_fail:
  assumes size: "hasSize m n" and len: "1 < length nodes"
    and a: "a = nodes ! 0" and b: "b = nodes ! 1"
    and bad: "\<not> (0 \<le> a \<and> a \<le> int n \<and> 0 \<le> b \<and> b \<le> int n)"
  shows "matrixHandleTwoTerminalComponent m c nodes w = Inl MatrixIndexOutOfRange"
proof -
  let ?yab = "getConductance c a b w" and ?yba = "getConductance c b a w"
  note unf = twoTerminal_unfold [OF len a b]
  show ?thesis
  proof (cases "a \<noteq> 0 \<and> b \<noteq> 0")
    case True
    then have "\<not> (inRange (a - 1) n \<and> inRange (b - 1) n)"
      using bad inRange_nodeD by blast
    then have "matrixModify m (a - 1) (b - 1) (\<lambda>x. x - ?yab) = Inl MatrixIndexOutOfRange"
      using size by (rule matrixModify_fail [rotated])
    then show ?thesis unfolding unf using True by simp
  next
    case False
    show ?thesis
    proof (cases "a = 0")
      case True
      then have b0: "b \<noteq> 0" and "\<not> inRange (b - 1) n"
        using bad inRange_nodeD [of b n] by auto
      then have "matrixModify m (b - 1) (b - 1) (\<lambda>x. x + ?yba) = Inl MatrixIndexOutOfRange"
        using size by (simp add: matrixModify_fail)
      then show ?thesis unfolding unf using True b0 by simp
    next
      case a0: False
      then have b0: "b = 0" using False by simp
      then have "\<not> inRange (a - 1) n"
        using bad a0 inRange_nodeD [of a n] by auto
      then have "matrixModify m (a - 1) (a - 1) (\<lambda>x. x + ?yab) = Inl MatrixIndexOutOfRange"
        using size by (simp add: matrixModify_fail)
      then show ?thesis unfolding unf using a0 b0 by simp
    qed
  qed
qed

lemma matrixModify_rows:
  assumes "matrixModify m i j f = Inr m'" and "int r \<noteq> i"
  shows "m' ! r = m ! r"
proof -
  have "inRange i (length m)" and m': "m' = m[nat i := (m ! nat i)[nat j := f (m ! nat i ! nat j)]]"
    using assms(1) by (auto simp add: matrixModify_def split: if_splits)
  then have "nat i \<noteq> r" using assms(2) by (auto simp add: inRange_def)
  then show ?thesis unfolding m' by simp
qed

lemma matrixRowSubSelf_ok:
  assumes "hasSize m n" and "inRange i n"
  shows "\<exists>m'. matrixRowSubSelf m i = Inr m' \<and> hasSize m' n \<and> (\<forall>r. int r \<noteq> i \<longrightarrow> m' ! r = m ! r)"
proof -
  let ?m' = "m[nat i := map (\<lambda>x. x - x) (m ! nat i)]"
  have i: "nat i < n" "0 \<le> i" using assms(2) by (auto simp add: inRange_def)
  have len: "length m = n" "length (m ! nat i) = n"
    using assms(1) i by (simp_all add: hasSize_length hasSize_row)
  have "matrixRowSubSelf m i = Inr ?m'"
    using assms(2) len by (simp add: matrixRowSubSelf_def)
  moreover have "hasSize ?m' n"
    using assms(1) len by (simp add: hasSize_update)
  moreover have "\<forall>r. int r \<noteq> i \<longrightarrow> ?m' ! r = m ! r"
    using i by auto
  ultimately show ?thesis by blast
qed

lemma matrixRowSubSelf_fail:
  assumes "hasSize m n" and "\<not> inRange i n"
  shows "matrixRowSubSelf m i = Inl MatrixIndexOutOfRange"
  using assms by (simp add: matrixRowSubSelf_def hasSize_length)

text \<open>Row replacement: zero the row \<open>i\<close>, then set one or two of its coefficients.\<close>

lemma replaceRow_one:
  assumes "hasSize m n" and "inRange i n"
  shows "\<exists>m'. bindE (matrixRowSubSelf m i) (\<lambda>m1. matrixModify m1 i i (\<lambda>_. x)) = Inr m' \<and>
           hasSize m' n \<and> (\<forall>r. int r \<noteq> i \<longrightarrow> m' ! r = m ! r)"
proof -
  obtain m1 where m1: "matrixRowSubSelf m i = Inr m1" "hasSize m1 n"
    "\<forall>r. int r \<noteq> i \<longrightarrow> m1 ! r = m ! r"
    using matrixRowSubSelf_ok [OF assms] by blast
  obtain m2 where m2: "matrixModify m1 i i (\<lambda>_. x) = Inr m2" "hasSize m2 n"
    using matrixModify_ok [OF m1(2) assms(2) assms(2)] by blast
  have "\<forall>r. int r \<noteq> i \<longrightarrow> m2 ! r = m ! r"
    using matrixModify_rows [OF m2(1)] m1(3) by simp
  then show ?thesis using m1(1) m2(1,2) by simp
qed

lemma replaceRow_two:
  assumes "hasSize m n" and "inRange i n" and "inRange j n"
  shows "\<exists>m'. bindE (matrixRowSubSelf m i) (\<lambda>m1.
               bindE (matrixModify m1 i i (\<lambda>_. x)) (\<lambda>m2.
               matrixModify m2 i j (\<lambda>_. y))) = Inr m' \<and>
           hasSize m' n \<and> (\<forall>r. int r \<noteq> i \<longrightarrow> m' ! r = m ! r)"
proof -
  obtain m1 where m1: "matrixRowSubSelf m i = Inr m1" "hasSize m1 n"
    "\<forall>r. int r \<noteq> i \<longrightarrow> m1 ! r = m ! r"
    using matrixRowSubSelf_ok [OF assms(1,2)] by blast
  obtain m2 where m2: "matrixModify m1 i i (\<lambda>_. x) = Inr m2" "hasSize m2 n"
    using matrixModify_ok [OF m1(2) assms(2) assms(2)] by blast
  obtain m3 where m3: "matrixModify m2 i j (\<lambda>_. y) = Inr m3" "hasSize m3 n"
    using matrixModify_ok [OF m2(2) assms(2) assms(3)] by blast
  have "\<forall>r. int r \<noteq> i \<longrightarrow> m3 ! r = m ! r"
    using matrixModify_rows [OF m2(1)] matrixModify_rows [OF m3(1)] m1(3) by simp
  then show ?thesis using m1(1) m2(1) m3(1,2) by simp
qed

lemma voltageSource_unfold:
  assumes "1 < length (getNodes c)" and "np = getNodes c ! 0" and "nm = getNodes c ! 1"
  shows "matrixHandleVoltageSource m c =
     (if np = nm then Inr m
      else if np \<noteq> 0 \<and> nm \<noteq> 0 then
        bindE (matrixRowSubSelf m (np - 1)) (\<lambda>m1.
        bindE (matrixModify m1 (np - 1) (np - 1) (\<lambda>_. 1)) (\<lambda>m2.
        matrixModify m2 (np - 1) (nm - 1) (\<lambda>_. - 1)))
      else if np \<noteq> 0 \<and> nm = 0 then
        bindE (matrixRowSubSelf m (np - 1)) (\<lambda>m1.
        matrixModify m1 (np - 1) (np - 1) (\<lambda>_. 1))
      else if np = 0 \<and> nm \<noteq> 0 then
        bindE (matrixRowSubSelf m (nm - 1)) (\<lambda>m1.
        matrixModify m1 (nm - 1) (nm - 1) (\<lambda>_. - 1))
      else Inr m)"
proof -
  have "0 < length (getNodes c)" using assms(1) by arith
  then have e: "elemAt (getNodes c) 0 NodeIndexOutOfRange = Inr np"
    "elemAt (getNodes c) 1 NodeIndexOutOfRange = Inr nm"
    using assms by (simp_all add: elemAt_def)
  show ?thesis
    unfolding matrixHandleVoltageSource_def Let_def e bindE_Inr ..
qed

lemma voltageSource_ok:
  assumes size: "hasSize m n" and len: "1 < length (getNodes c)"
    and np: "np = getNodes c ! 0" "0 \<le> np" "np \<le> int n"
    and nm: "nm = getNodes c ! 1" "0 \<le> nm" "nm \<le> int n"
  shows "\<exists>m'. matrixHandleVoltageSource m c = Inr m' \<and> hasSize m' n \<and>
           (np = nm \<longrightarrow> m' = m) \<and>
           (\<forall>r. int r \<noteq> (if np \<noteq> 0 then np else nm) - 1 \<longrightarrow> m' ! r = m ! r)"
proof -
  note unf = voltageSource_unfold [OF len np(1) nm(1)]
  consider (same) "np = nm" | (both) "np \<noteq> nm" "np \<noteq> 0" "nm \<noteq> 0"
    | (plus) "np \<noteq> 0" "nm = 0" | (minus) "np = 0" "nm \<noteq> 0"
    by blast
  then show ?thesis
  proof cases
    case same
    then show ?thesis unfolding unf using size by simp
  next
    case both
    have "inRange (np - 1) n" "inRange (nm - 1) n"
      using both np nm by (simp_all add: inRange_node)
    from replaceRow_two [OF size this, of 1 "- 1"] show ?thesis
      unfolding unf using both by simp
  next
    case plus
    have "inRange (np - 1) n"
      using plus np by (simp add: inRange_node)
    from replaceRow_one [OF size this, of 1] show ?thesis
      unfolding unf using plus by simp
  next
    case minus
    have "inRange (nm - 1) n"
      using minus nm by (simp add: inRange_node)
    from replaceRow_one [OF size this, of "- 1"] show ?thesis
      unfolding unf using minus by simp
  qed
qed

lemma vectorModify_ok:
  assumes "length v = n" and "inRange i n"
  shows "vectorModify v i f = Inr (v[nat i := f (v ! nat i)])"
  using assms by (simp add: vectorModify_def)

lemma vectorModify_fail:
  assumes "length v = n" and "\<not> inRange i n"
  shows "vectorModify v i f = Inl VectorIndexOutOfRange"
  using assms by (simp add: vectorModify_def)

lemma vectorModify_cond:
  assumes "length v = n" and "0 \<le> a" and "a \<le> int n"
  shows "\<exists>v'. (if a \<noteq> 0 then vectorModify v (a - 1) f else Inr v) = Inr v' \<and> length v' = n \<and>
           (\<forall>k<n. v' ! k = (if a \<noteq> 0 \<and> int k = a - 1 then f (v ! k) else v ! k))"
proof (cases "a = 0")
  case True
  then show ?thesis using assms(1) by simp
next
  case False
  then have r: "inRange (a - 1) n" using assms by (simp add: inRange_node)
  then have "nat (a - 1) < n" "0 \<le> a - 1" by (auto simp add: inRange_def)
  then have "\<forall>k<n. v[nat (a - 1) := f (v ! nat (a - 1))] ! k =
      (if int k = a - 1 then f (v ! k) else v ! k)"
    using assms(1) by (auto simp add: nth_list_update)
  then show ?thesis
    using False assms(1) vectorModify_ok [OF assms(1) r, of f] by simp
qed

lemma vectorModify_cond_fail:
  assumes "length v = n" and "\<not> (0 \<le> a \<and> a \<le> int n)"
  shows "(if a \<noteq> 0 then vectorModify v (a - 1) f else Inr v) = Inl VectorIndexOutOfRange"
proof -
  have "a \<noteq> 0" using assms(2) by auto
  moreover from this have "\<not> inRange (a - 1) n"
    using assms(2) inRange_nodeD by blast
  ultimately show ?thesis using assms(1) by (simp add: vectorModify_fail)
qed

lemma acCurrent_unfold:
  assumes "getProperties c = amplitude # phase # ps" and "getNodes c = a # b # ns"
  shows "vectorHandleACCurrentSource v c =
     bindE (if a \<noteq> 0 then vectorModify v (a - 1) (\<lambda>x. x - rcis amplitude phase) else Inr v)
       (\<lambda>v1. if b \<noteq> 0 then vectorModify v1 (b - 1) (\<lambda>x. x + rcis amplitude phase) else Inr v1)"
  unfolding vectorHandleACCurrentSource_def Let_def assms
  by (simp add: elemAt_def)

lemma acCurrent_ok:
  assumes len: "length v = n"
    and props: "getProperties c = amplitude # phase # ps"
    and nodes: "getNodes c = a # b # ns"
    and a: "0 \<le> a" "a \<le> int n" and b: "0 \<le> b" "b \<le> int n"
  shows "\<exists>v'. vectorHandleACCurrentSource v c = Inr v' \<and> length v' = n \<and>
           (\<forall>k<n. v' ! k = v ! k + currentStamp a b (rcis amplitude phase) k)"
proof -
  let ?cur = "rcis amplitude phase"
  obtain v1 where v1:
    "(if a \<noteq> 0 then vectorModify v (a - 1) (\<lambda>x. x - ?cur) else Inr v) = Inr v1"
    "length v1 = n"
    "\<forall>k<n. v1 ! k = (if a \<noteq> 0 \<and> int k = a - 1 then v ! k - ?cur else v ! k)"
    using vectorModify_cond [OF len a, of "\<lambda>x. x - ?cur"] by blast
  obtain v2 where v2:
    "(if b \<noteq> 0 then vectorModify v1 (b - 1) (\<lambda>x. x + ?cur) else Inr v1) = Inr v2"
    "length v2 = n"
    "\<forall>k<n. v2 ! k = (if b \<noteq> 0 \<and> int k = b - 1 then v1 ! k + ?cur else v1 ! k)"
    using vectorModify_cond [OF v1(2) b, of "\<lambda>x. x + ?cur"] by blast
  have "vectorHandleACCurrentSource v c = Inr v2"
    unfolding acCurrent_unfold [OF props nodes] using v1(1) v2(1) by simp
  moreover have "\<forall>k<n. v2 ! k = v ! k + currentStamp a b ?cur k"
    using v1(3) v2(3) by (simp add: currentStamp_def)
  ultimately show ?thesis using v2(2) by blast
qed

lemma acCurrent_fail:
  assumes len: "length v = n"
    and bad: "\<not> (\<exists>amplitude phase ps a b ns. getProperties c = amplitude # phase # ps \<and>
                getNodes c = a # b # ns \<and> 0 \<le> a \<and> a \<le> int n \<and> 0 \<le> b \<and> b \<le> int n)"
  shows "\<exists>e. vectorHandleACCurrentSource v c = Inl e"
proof (cases "1 < length (getProperties c)")
  case False
  then have "vectorHandleACCurrentSource v c = Inl PropertyIndexOutOfRange"
    unfolding vectorHandleACCurrentSource_def Let_def
    by (cases "0 < length (getProperties c)") (simp_all add: elemAt_def)
  then show ?thesis by blast
next
  case True
  then obtain amplitude phase ps where props: "getProperties c = amplitude # phase # ps"
    by (cases "getProperties c"; cases "tl (getProperties c)") auto
  let ?cur = "rcis amplitude phase"
  have red: "vectorHandleACCurrentSource v c =
      bindE (elemAt (getNodes c) 0 NodeIndexOutOfRange) (\<lambda>n0.
      bindE (if n0 \<noteq> 0 then vectorModify v (n0 - 1) (\<lambda>x. x - ?cur) else Inr v) (\<lambda>v1.
      bindE (elemAt (getNodes c) 1 NodeIndexOutOfRange) (\<lambda>n1.
        if n1 \<noteq> 0 then vectorModify v1 (n1 - 1) (\<lambda>x. x + ?cur) else Inr v1)))"
    unfolding vectorHandleACCurrentSource_def Let_def props by (simp add: elemAt_def)
  show ?thesis
  proof (cases "getNodes c")
    case Nil
    then show ?thesis unfolding red by (simp add: elemAt_def)
  next
    case (Cons a ns')
    then have e0: "elemAt (getNodes c) 0 NodeIndexOutOfRange = Inr a"
      by (simp add: elemAt_def)
    show ?thesis
    proof (cases "0 \<le> a \<and> a \<le> int n")
      case False
      then show ?thesis
        unfolding red e0 using vectorModify_cond_fail [OF len False] by simp
    next
      case aok: True
      then obtain v1 where v1:
        "(if a \<noteq> 0 then vectorModify v (a - 1) (\<lambda>x. x - ?cur) else Inr v) = Inr v1"
        "length v1 = n"
        using vectorModify_cond [OF len, of a "\<lambda>x. x - ?cur"] by blast
      show ?thesis
      proof (cases ns')
        case Nil
        then show ?thesis unfolding red e0 using v1(1) Cons by (simp add: elemAt_def)
      next
        case (Cons b ns)
        then have e1: "elemAt (getNodes c) 1 NodeIndexOutOfRange = Inr b"
          using \<open>getNodes c = a # ns'\<close> by (simp add: elemAt_def)
        have "\<not> (0 \<le> b \<and> b \<le> int n)"
          using bad props aok Cons \<open>getNodes c = a # ns'\<close> by auto
        then show ?thesis
          unfolding red e0 e1 using v1(1) vectorModify_cond_fail [OF v1(2)] by simp
      qed
    qed
  qed
qed

lemma voltageVector_unfold:
  assumes "getNodes c = np # nm # ns"
  shows "vectorHandleVoltageSource v c =
     bindE (if typeid c \<noteq> DCVoltageSource
            then bindE (elemAt (getProperties c) 0 PropertyIndexOutOfRange) (\<lambda>amplitude.
                 bindE (elemAt (getProperties c) 1 PropertyIndexOutOfRange) (\<lambda>phase.
                 Inr (rcis amplitude phase)))
            else bindE (elemAt (getProperties c) 0 PropertyIndexOutOfRange) (\<lambda>p.
                 Inr (complex_of_real p)))
       (\<lambda>voltage. if np = nm then Inr v
          else vectorModify v ((if np = 0 then nm else np) - 1)
                 (\<lambda>_. if typeid c = DCVoltageSource then 0 else voltage))"
  unfolding vectorHandleVoltageSource_def Let_def assms
  by (cases "typeid c = DCVoltageSource"; cases "np = 0"; simp add: elemAt_def cong: if_cong)

lemma updateConductanceMatrix_ok:
  assumes size: "hasSize m n" and ok: "matrixStampable n c"
  shows "\<exists>m'. updateConductanceMatrix m c flag w = Inr (m', flag \<or> voltageSourceType (typeid c)) \<and>
           hasSize m' n \<and> (\<forall>r<n. \<forall>k<n. m' ! r ! k = m ! r ! k + matrixStamp c w r k)"
proof (cases "twoTerminalRouted c")
  case False
  then have "updateConductanceMatrix m c flag w = Inr (m, flag \<or> voltageSourceType (typeid c))"
    by (auto simp add: updateConductanceMatrix_def twoTerminalRouted_def voltageSourceType_def
        currentSourceType_def Let_def)
  then show ?thesis using size False by (simp add: matrixStamp_def)
next
  case True
  then have len: "length (getNodes c) = 2" and t: "\<not> currentSourceType (typeid c)"
    "\<not> voltageSourceType (typeid c)"
    by (simp_all add: twoTerminalRouted_def)
  have upd: "updateConductanceMatrix m c flag w =
      bindE (matrixHandleTwoTerminalComponent m c (getNodes c) w) (\<lambda>m'. Inr (m', flag))"
    using t len by (simp add: updateConductanceMatrix_def voltageSourceType_def
        currentSourceType_def Let_def)
  have rng: "0 \<le> getNodes c ! 0" "getNodes c ! 0 \<le> int n"
    "0 \<le> getNodes c ! 1" "getNodes c ! 1 \<le> int n"
    using ok True len by (simp_all add: matrixStampable_def nodesInRange_def list_all_length)
  have l1: "1 < length (getNodes c)" using len by simp
  obtain m' where m': "matrixHandleTwoTerminalComponent m c (getNodes c) w = Inr m'"
    "hasSize m' n"
    "\<forall>r<n. \<forall>k<n. m' ! r ! k = m ! r ! k +
        twoTerminalStamp (getNodes c ! 0) (getNodes c ! 1)
          (getConductance c (getNodes c ! 0) (getNodes c ! 1) w)
          (getConductance c (getNodes c ! 1) (getNodes c ! 0) w) r k"
    using twoTerminal_ok [OF size l1 refl rng(1,2) refl rng(3,4)] by blast
  have "updateConductanceMatrix m c flag w = Inr (m', flag \<or> voltageSourceType (typeid c))"
    unfolding upd using m'(1) t by simp
  moreover have "\<forall>r<n. \<forall>k<n. m' ! r ! k = m ! r ! k + matrixStamp c w r k"
    using m'(3) True by (simp add: matrixStamp_def)
  ultimately show ?thesis using m'(2) by blast
qed

lemma updateConductanceMatrix_fail:
  assumes size: "hasSize m n" and bad: "\<not> matrixStampable n c"
  shows "updateConductanceMatrix m c flag w = Inl MatrixIndexOutOfRange"
proof -
  have routed: "twoTerminalRouted c" and nr: "\<not> nodesInRange n c"
    using bad by (auto simp add: matrixStampable_def split: if_splits)
  then have len: "length (getNodes c) = 2" and t: "\<not> currentSourceType (typeid c)"
    "\<not> voltageSourceType (typeid c)"
    by (simp_all add: twoTerminalRouted_def)
  have upd: "updateConductanceMatrix m c flag w =
      bindE (matrixHandleTwoTerminalComponent m c (getNodes c) w) (\<lambda>m'. Inr (m', flag))"
    using t len by (simp add: updateConductanceMatrix_def voltageSourceType_def
        currentSourceType_def Let_def)
  have l1: "1 < length (getNodes c)" using len by simp
  have "\<forall>i<2. i = 0 \<or> i = Suc 0" by auto
  then have "\<not> (0 \<le> getNodes c ! 0 \<and> getNodes c ! 0 \<le> int n \<and>
      0 \<le> getNodes c ! 1 \<and> getNodes c ! 1 \<le> int n)"
    using nr len by (auto simp add: nodesInRange_def list_all_length)
  from twoTerminal_fail [OF size l1 refl refl this] show ?thesis
    unfolding upd by simp
qed

lemma conductanceStampLoop_ok:
  assumes "hasSize m n" and "\<forall>c\<in>set cs. matrixStampable n c"
  shows "\<exists>m' vs'. conductanceStampLoop cs i w m vs = Inr (m', vs') \<and>
           length vs' = length vs + length (filter (\<lambda>c. voltageSourceType (typeid c)) cs) \<and>
           hasSize m' n \<and>
           (\<forall>r<n. \<forall>k<n. m' ! r ! k = m ! r ! k + sum_list (map (\<lambda>c. matrixStamp c w r k) cs))"
  using assms
proof (induction cs arbitrary: m i vs)
  case Nil
  then show ?case by simp
next
  case (Cons c cs)
  let ?vs1 = "if False \<or> voltageSourceType (typeid c) then vs @ [i] else vs"
  obtain m1 where m1:
    "updateConductanceMatrix m c False w = Inr (m1, False \<or> voltageSourceType (typeid c))"
    "hasSize m1 n" "\<forall>r<n. \<forall>k<n. m1 ! r ! k = m ! r ! k + matrixStamp c w r k"
    using updateConductanceMatrix_ok [OF Cons.prems(1), of c False w] Cons.prems(2) by auto
  obtain m' vs' where rest:
    "conductanceStampLoop cs (Suc i) w m1 ?vs1 = Inr (m', vs')"
    "length vs' = length ?vs1 + length (filter (\<lambda>c. voltageSourceType (typeid c)) cs)"
    "hasSize m' n"
    "\<forall>r<n. \<forall>k<n. m' ! r ! k = m1 ! r ! k + sum_list (map (\<lambda>c. matrixStamp c w r k) cs)"
    using Cons.IH [OF m1(2), of "Suc i" ?vs1] Cons.prems(2) by auto
  have "conductanceStampLoop (c # cs) i w m vs = Inr (m', vs')"
    using m1(1) rest(1) by simp
  moreover have "length vs' = length vs + length (filter (\<lambda>c. voltageSourceType (typeid c)) (c # cs))"
    using rest(2) by simp
  moreover have "\<forall>r<n. \<forall>k<n. m' ! r ! k =
      m ! r ! k + sum_list (map (\<lambda>c. matrixStamp c w r k) (c # cs))"
    using m1(3) rest(4) by (simp add: add.assoc)
  ultimately show ?case using rest(3) by blast
qed

lemma conductanceStampLoop_fail:
  assumes "hasSize m n" and "\<not> (\<forall>c\<in>set cs. matrixStampable n c)"
  shows "conductanceStampLoop cs i w m vs = Inl MatrixIndexOutOfRange"
  using assms
proof (induction cs arbitrary: m i vs)
  case Nil
  then show ?case by simp
next
  case (Cons c cs)
  show ?case
  proof (cases "matrixStampable n c")
    case False
    then show ?thesis
      using updateConductanceMatrix_fail [OF Cons.prems(1) False] by simp
  next
    case True
    obtain m1 where m1:
      "updateConductanceMatrix m c False w = Inr (m1, False \<or> voltageSourceType (typeid c))"
      "hasSize m1 n"
      using updateConductanceMatrix_ok [OF Cons.prems(1) True, of False w] by auto
    have "\<not> (\<forall>c\<in>set cs. matrixStampable n c)"
      using Cons.prems(2) True by simp
    from Cons.IH [OF m1(2) this] show ?thesis
      using m1(1) by simp
  qed
qed

lemma two_le_length:
  assumes "2 \<le> length xs"
  obtains x y zs where "xs = x # y # zs"
  using assms by (cases xs; cases "tl xs") auto

lemma updateCurrentVector_ok:
  assumes len: "length v = n" and ok: "vectorStampable n c"
  shows "\<exists>v'. updateCurrentVector v c flag = Inr (v', flag \<or> voltageSourceType (typeid c)) \<and>
           length v' = n \<and> (\<forall>k<n. v' ! k = v ! k + vectorStamp c k)"
proof (cases "typeid c = ACCurrentSource")
  case False
  then have "updateCurrentVector v c flag = Inr (v, flag \<or> voltageSourceType (typeid c))"
    by (auto simp add: updateCurrentVector_def voltageSourceType_def)
  then show ?thesis using len False by (simp add: vectorStamp_def)
next
  case True
  then have ok': "2 \<le> length (getProperties c)" "2 \<le> length (getNodes c)"
    "0 \<le> getNodes c ! 0" "getNodes c ! 0 \<le> int n"
    "0 \<le> getNodes c ! 1" "getNodes c ! 1 \<le> int n"
    using ok by (simp_all add: vectorStampable_def)
  obtain amplitude phase ps where props: "getProperties c = amplitude # phase # ps"
    using ok'(1) by (rule two_le_length)
  obtain a b ns where nodes: "getNodes c = a # b # ns"
    using ok'(2) by (rule two_le_length)
  have rng: "0 \<le> a" "a \<le> int n" "0 \<le> b" "b \<le> int n"
    using ok'(3-6) nodes by simp_all
  obtain v' where v': "vectorHandleACCurrentSource v c = Inr v'" "length v' = n"
    "\<forall>k<n. v' ! k = v ! k + currentStamp a b (rcis amplitude phase) k"
    using acCurrent_ok [OF len props nodes rng] by blast
  have "updateCurrentVector v c flag = Inr (v', flag \<or> voltageSourceType (typeid c))"
    using True v'(1) by (simp add: updateCurrentVector_def voltageSourceType_def)
  moreover have "\<forall>k<n. v' ! k = v ! k + vectorStamp c k"
    using v'(3) True props nodes by (simp add: vectorStamp_def)
  ultimately show ?thesis using v'(2) by blast
qed

lemma updateCurrentVector_fail:
  assumes len: "length v = n" and bad: "\<not> vectorStampable n c"
  shows "\<exists>e. updateCurrentVector v c flag = Inl e"
proof -
  have t: "typeid c = ACCurrentSource"
    using bad by (auto simp add: vectorStampable_def split: if_splits)
  have "\<not> (\<exists>amplitude phase ps a b ns. getProperties c = amplitude # phase # ps \<and>
           getNodes c = a # b # ns \<and> 0 \<le> a \<and> a \<le> int n \<and> 0 \<le> b \<and> b \<le> int n)"
    using bad t by (auto simp add: vectorStampable_def)
  from acCurrent_fail [OF len this] obtain e where "vectorHandleACCurrentSource v c = Inl e"
    by blast
  then show ?thesis using t by (simp add: updateCurrentVector_def)
qed

lemma currentStampLoop_ok:
  assumes "length v = n" and "\<forall>c\<in>set cs. vectorStampable n c"
  shows "\<exists>v' vs'. currentStampLoop cs i v vs = Inr (v', vs') \<and>
           length vs' = length vs + length (filter (\<lambda>c. voltageSourceType (typeid c)) cs) \<and>
           length v' = n \<and>
           (\<forall>k<n. v' ! k = v ! k + sum_list (map (\<lambda>c. vectorStamp c k) cs))"
  using assms
proof (induction cs arbitrary: v i vs)
  case Nil
  then show ?case by simp
next
  case (Cons c cs)
  let ?vs1 = "if False \<or> voltageSourceType (typeid c) then vs @ [i] else vs"
  obtain v1 where v1:
    "updateCurrentVector v c False = Inr (v1, False \<or> voltageSourceType (typeid c))"
    "length v1 = n" "\<forall>k<n. v1 ! k = v ! k + vectorStamp c k"
    using updateCurrentVector_ok [OF Cons.prems(1), of c False] Cons.prems(2) by auto
  obtain v' vs' where rest:
    "currentStampLoop cs (Suc i) v1 ?vs1 = Inr (v', vs')"
    "length vs' = length ?vs1 + length (filter (\<lambda>c. voltageSourceType (typeid c)) cs)"
    "length v' = n"
    "\<forall>k<n. v' ! k = v1 ! k + sum_list (map (\<lambda>c. vectorStamp c k) cs)"
    using Cons.IH [OF v1(2), of "Suc i" ?vs1] Cons.prems(2) by auto
  have "currentStampLoop (c # cs) i v vs = Inr (v', vs')"
    using v1(1) rest(1) by simp
  moreover have "length vs' = length vs + length (filter (\<lambda>c. voltageSourceType (typeid c)) (c # cs))"
    using rest(2) by simp
  moreover have "\<forall>k<n. v' ! k = v ! k + sum_list (map (\<lambda>c. vectorStamp c k) (c # cs))"
    using v1(3) rest(4) by (simp add: add.assoc)
  ultimately show ?case using rest(3) by blast
qed

lemma currentStampLoop_fail:
  assumes "length v = n" and "\<not> (\<forall>c\<in>set cs. vectorStampable n c)"
  shows "\<exists>e. currentStampLoop cs i v vs = Inl e"
  using assms
proof (induction cs arbitrary: v i vs)
  case Nil
  then show ?case by simp
next
  case (Cons c cs)
  show ?case
  proof (cases "vectorStampable n c")
    case False
    then show ?thesis
      using updateCurrentVector_fail [OF Cons.prems(1) False, of False] by auto
  next
    case True
    obtain v1 where v1:
      "updateCurrentVector v c False = Inr (v1, False \<or> voltageSourceType (typeid c))"
      "length v1 = n"
      using updateCurrentVector_ok [OF Cons.prems(1) True, of False] by auto
    have "\<not> (\<forall>c\<in>set cs. vectorStampable n c)"
      using Cons.prems(2) True by simp
    from Cons.IH [OF v1(2) this] show ?thesis
      using v1(1) by simp
  qed
qed

lemma conductanceSourceLoop_ok:
  assumes "hasSize m n"
    and "\<forall>i\<in>set is. i < length components \<and> sourceRoutable n (components ! i)"
  shows "\<exists>m'. conductanceSourceLoop components is m = Inr m' \<and> hasSize m' n"
  using assms
proof (induction "is" arbitrary: m)
  case Nil
  then show ?case by simp
next
  case (Cons i "is")
  have i: "i < length components" and r: "sourceRoutable n (components ! i)"
    using Cons.prems(2) by simp_all
  have l1: "1 < length (getNodes (components ! i))"
    using r by (simp add: sourceRoutable_def)
  obtain m1 where m1: "matrixHandleVoltageSource m (components ! i) = Inr m1" "hasSize m1 n"
    using voltageSource_ok [OF Cons.prems(1) l1 refl _ _ refl] r
    by (auto simp add: sourceRoutable_def)
  obtain m' where "conductanceSourceLoop components is m1 = Inr m'" "hasSize m' n"
    using Cons.IH [OF m1(2)] Cons.prems(2) by auto
  then show ?case using i m1(1) by simp
qed

lemma vectorHandleVoltageSource_cases:
  assumes len: "length v = n" and r: "sourceRoutable n c"
  shows "(\<exists>v'. vectorHandleVoltageSource v c = Inr v' \<and> length v' = n) \<or>
         (vectorHandleVoltageSource v c = Inl PropertyIndexOutOfRange \<and> \<not> sourceProperties c)"
proof -
  obtain np nm ns where nodes: "getNodes c = np # nm # ns"
    using r by (auto simp add: sourceRoutable_def elim: two_le_length)
  have rng: "0 \<le> np" "np \<le> int n" "0 \<le> nm" "nm \<le> int n"
    using r nodes by (simp_all add: sourceRoutable_def)
  note unf = voltageVector_unfold [OF nodes]
  show ?thesis
  proof (cases "sourceProperties c")
    case False
    have "(if typeid c \<noteq> DCVoltageSource
        then bindE (elemAt (getProperties c) 0 PropertyIndexOutOfRange) (\<lambda>amplitude.
             bindE (elemAt (getProperties c) 1 PropertyIndexOutOfRange) (\<lambda>phase.
             Inr (rcis amplitude phase)))
        else bindE (elemAt (getProperties c) 0 PropertyIndexOutOfRange) (\<lambda>p.
             Inr (complex_of_real p))) = Inl PropertyIndexOutOfRange"
    proof (cases "typeid c = DCVoltageSource")
      case True
      then have "\<not> 1 \<le> length (getProperties c)"
        using False by (simp add: sourceProperties_def)
      then have "\<not> 0 < length (getProperties c)"
        by arith
      then show ?thesis using True by (simp add: elemAt_def)
    next
      case dc: False
      then have "\<not> 2 \<le> length (getProperties c)"
        using False by (simp add: sourceProperties_def)
      then have "\<not> 1 < length (getProperties c)"
        by arith
      then show ?thesis using dc
        by (cases "0 < length (getProperties c)") (simp_all add: elemAt_def)
    qed
    then have "vectorHandleVoltageSource v c = Inl PropertyIndexOutOfRange"
      unfolding unf by simp
    then show ?thesis using False by simp
  next
    case True
    have p0: "0 < length (getProperties c)"
      using True by (cases "typeid c = DCVoltageSource") (auto simp add: sourceProperties_def)
    have p1: "1 < length (getProperties c)" if "typeid c \<noteq> DCVoltageSource"
      using True that by (simp add: sourceProperties_def)
    obtain voltage where volt:
      "(if typeid c \<noteq> DCVoltageSource
        then bindE (elemAt (getProperties c) 0 PropertyIndexOutOfRange) (\<lambda>amplitude.
             bindE (elemAt (getProperties c) 1 PropertyIndexOutOfRange) (\<lambda>phase.
             Inr (rcis amplitude phase)))
        else bindE (elemAt (getProperties c) 0 PropertyIndexOutOfRange) (\<lambda>p.
             Inr (complex_of_real p))) = Inr voltage"
      using p0 p1 by (cases "typeid c = DCVoltageSource") simp_all
    show ?thesis
    proof (cases "np = nm")
      case True
      then show ?thesis unfolding unf volt using len by simp
    next
      case False
      then have "(if np = 0 then nm else np) \<noteq> 0" by auto
      then have "inRange ((if np = 0 then nm else np) - 1) n"
        using rng by (intro inRange_node) auto
      from vectorModify_ok [OF len this] show ?thesis
        unfolding unf volt using False len by simp
    qed
  qed
qed

lemma currentSourceLoop_cases:
  assumes "length v = n"
    and "\<forall>i\<in>set is. i < length components \<and> sourceRoutable n (components ! i)"
  shows "(\<exists>v'. currentSourceLoop components is v = Inr v' \<and> length v' = n) \<or>
         (currentSourceLoop components is v = Inl PropertyIndexOutOfRange \<and>
          \<not> (\<forall>i\<in>set is. sourceProperties (components ! i)))"
  using assms
proof (induction "is" arbitrary: v)
  case Nil
  then show ?case by simp
next
  case (Cons i "is")
  have i: "i < length components" and r: "sourceRoutable n (components ! i)"
    using Cons.prems(2) by simp_all
  from vectorHandleVoltageSource_cases [OF Cons.prems(1) r] show ?case
  proof
    assume "\<exists>v'. vectorHandleVoltageSource v (components ! i) = Inr v' \<and> length v' = n"
    then obtain v1 where v1: "vectorHandleVoltageSource v (components ! i) = Inr v1"
      "length v1 = n" by blast
    have "(\<exists>v'. currentSourceLoop components is v1 = Inr v' \<and> length v' = n) \<or>
         (currentSourceLoop components is v1 = Inl PropertyIndexOutOfRange \<and>
          \<not> (\<forall>i\<in>set is. sourceProperties (components ! i)))"
      using Cons.IH [OF v1(2)] Cons.prems(2) by simp
    then show ?thesis using i v1(1) by auto
  next
    assume "vectorHandleVoltageSource v (components ! i) = Inl PropertyIndexOutOfRange \<and>
       \<not> sourceProperties (components ! i)"
    then show ?thesis using i by simp
  qed
qed

text \<open>The definitions a concrete circuit is evaluated with.\<close>

lemmas eval_defs = getConductanceMatrix_def getCurrentVector_def updateConductanceMatrix_def
  updateCurrentVector_def matrixHandleTwoTerminalComponent_def matrixHandleVoltageSource_def
  vectorHandleVoltageSource_def vectorHandleACCurrentSource_def
  elemAt_def MatrixZero_def VectorZero_def matrixModify_def matrixRowSubSelf_def vectorModify_def
  inRange_def exampleAdmittance_def exampleSource_def assembleAtFrequency_def Let_def

lemma acCurrent_props_fail:
  assumes "\<not> 2 \<le> length (getProperties c)"
  shows "vectorHandleACCurrentSource v c = Inl PropertyIndexOutOfRange"
proof -
  have "\<not> 1 < length (getProperties c)" using assms by arith
  then show ?thesis
    unfolding vectorHandleACCurrentSource_def Let_def
    by (cases "0 < length (getProperties c)") (simp_all add: elemAt_def)
qed

lemma updateCurrentVector_cases:
  assumes len: "length v = n" and r: "typeid c = ACCurrentSource \<longrightarrow> sourceRoutable n c"
  shows "(\<exists>v'. updateCurrentVector v c flag = Inr (v', flag \<or> voltageSourceType (typeid c)) \<and>
            length v' = n) \<or>
         updateCurrentVector v c flag = Inl PropertyIndexOutOfRange"
proof (cases "typeid c = ACCurrentSource \<and> \<not> 2 \<le> length (getProperties c)")
  case True
  then show ?thesis
    using acCurrent_props_fail [of c v] by (simp add: updateCurrentVector_def)
next
  case False
  then have "vectorStampable n c"
    using r by (auto simp add: vectorStampable_def sourceRoutable_def)
  from updateCurrentVector_ok [OF len this] show ?thesis by blast
qed

lemma currentStampLoop_cases:
  assumes "length v = n" and "\<forall>c\<in>set cs. typeid c = ACCurrentSource \<longrightarrow> sourceRoutable n c"
  shows "(\<exists>v' vs'. currentStampLoop cs i v vs = Inr (v', vs') \<and>
            length vs' = length vs + length (filter (\<lambda>c. voltageSourceType (typeid c)) cs) \<and>
            length v' = n) \<or>
         currentStampLoop cs i v vs = Inl PropertyIndexOutOfRange"
  using assms
proof (induction cs arbitrary: v i vs)
  case Nil
  then show ?case by simp
next
  case (Cons c cs)
  let ?vs1 = "if False \<or> voltageSourceType (typeid c) then vs @ [i] else vs"
  have r: "typeid c = ACCurrentSource \<longrightarrow> sourceRoutable n c"
    using Cons.prems(2) by simp
  from updateCurrentVector_cases [OF Cons.prems(1) r, of False] show ?case
  proof
    assume "\<exists>v'. updateCurrentVector v c False = Inr (v', False \<or> voltageSourceType (typeid c)) \<and>
       length v' = n"
    then obtain v1 where v1:
      "updateCurrentVector v c False = Inr (v1, False \<or> voltageSourceType (typeid c))"
      "length v1 = n" by blast
    have "(\<exists>v' vs'. currentStampLoop cs (Suc i) v1 ?vs1 = Inr (v', vs') \<and>
            length vs' = length ?vs1 + length (filter (\<lambda>c. voltageSourceType (typeid c)) cs) \<and>
            length v' = n) \<or>
         currentStampLoop cs (Suc i) v1 ?vs1 = Inl PropertyIndexOutOfRange"
      using Cons.IH [OF v1(2)] Cons.prems(2) by simp
    then show ?thesis
    proof
      assume "\<exists>v' vs'. currentStampLoop cs (Suc i) v1 ?vs1 = Inr (v', vs') \<and>
            length vs' = length ?vs1 + length (filter (\<lambda>c. voltageSourceType (typeid c)) cs) \<and>
            length v' = n"
      then obtain v' vs' where rest: "currentStampLoop cs (Suc i) v1 ?vs1 = Inr (v', vs')"
        "length vs' = length ?vs1 + length (filter (\<lambda>c. voltageSourceType (typeid c)) cs)"
        "length v' = n" by blast
      have "currentStampLoop (c # cs) i v vs = Inr (v', vs')"
        using v1(1) rest(1) by simp
      moreover have "length vs' =
          length vs + length (filter (\<lambda>c. voltageSourceType (typeid c)) (c # cs))"
        using rest(2) by simp
      ultimately show ?thesis using rest(3) by blast
    next
      assume "currentStampLoop cs (Suc i) v1 ?vs1 = Inl PropertyIndexOutOfRange"
      then show ?thesis using v1(1) by simp
    qed
  next
    assume "updateCurrentVector v c False = Inl PropertyIndexOutOfRange"
    then show ?thesis by simp
  qed
qed

lemma nodesInRange_sourceRoutable:
  assumes "nodesInRange n c" and "2 \<le> length (getNodes c)"
  shows "sourceRoutable n c"
proof -
  have "0 < length (getNodes c)" "1 < length (getNodes c)" using assms(2) by arith+
  then show ?thesis
    using assms by (simp add: nodesInRange_def sourceRoutable_def list_all_length)
qed

lemma nodesInRange_matrixStampable: "nodesInRange n c \<Longrightarrow> matrixStampable n c"
  by (simp add: matrixStampable_def)

lemma routed_prefix:
  assumes nodes: "\<forall>c\<in>set components. nodesInRange n c"
    and src: "\<forall>c\<in>set (take k components). 2 \<le> length (getNodes c)"
    and k: "k \<le> length components"
  shows "\<forall>i\<in>set [0 ..< k]. i < length components \<and> sourceRoutable n (components ! i)"
proof
  fix i assume "i \<in> set [0 ..< k]"
  then have i: "i < k" by simp
  then have il: "i < length components" using k by simp
  have "components ! i \<in> set (take k components)"
    using i il by (metis in_set_conv_nth length_take min_less_iff_conj nth_take)
  then have "2 \<le> length (getNodes (components ! i))" using src by blast
  moreover have "nodesInRange n (components ! i)" using nodes il by simp
  ultimately show "i < length components \<and> sourceRoutable n (components ! i)"
    using il by (simp add: nodesInRange_sourceRoutable)
qed

lemma filter_voltage_sources_empty:
  assumes "\<forall>c\<in>set cs. \<not> voltageSourceType (typeid c)"
  shows "filter (\<lambda>c. voltageSourceType (typeid c)) cs = []"
  using assms by (simp add: filter_empty_conv)

lemma MatrixZero_nth: "r < n \<Longrightarrow> k < n \<Longrightarrow> MatrixZero n n ! r ! k = 0"
  by (simp add: MatrixZero_def)

lemma noVS_matrix_ok:
  assumes novs: "\<forall>c\<in>set cs. \<not> voltageSourceType (typeid c)"
    and ok: "\<forall>c\<in>set cs. matrixStampable n c"
  shows "\<exists>G. getConductanceMatrix cs n w = Inr G \<and> hasSize G n \<and>
           (\<forall>r<n. \<forall>k<n. G ! r ! k = sum_list (map (\<lambda>c. matrixStamp c w r k) cs))"
proof -
  obtain m vs where loop:
    "conductanceStampLoop cs 0 w (MatrixZero n n) [] = Inr (m, vs)"
    "length vs = length ([]::nat list) + length (filter (\<lambda>c. voltageSourceType (typeid c)) cs)"
    "hasSize m n"
    "\<forall>r<n. \<forall>k<n. m ! r ! k = MatrixZero n n ! r ! k + sum_list (map (\<lambda>c. matrixStamp c w r k) cs)"
    using conductanceStampLoop_ok [OF hasSize_MatrixZero ok, of 0 w "[]"] by blast
  have "vs = []"
    using loop(2) filter_voltage_sources_empty [OF novs] by simp
  then have "getConductanceMatrix cs n w = Inr m"
    using loop(1) by (simp add: getConductanceMatrix_def)
  moreover have "\<forall>r<n. \<forall>k<n. m ! r ! k = sum_list (map (\<lambda>c. matrixStamp c w r k) cs)"
    using loop(4) by (simp add: MatrixZero_nth)
  ultimately show ?thesis using loop(3) by blast
qed

lemma noVS_matrix_fail:
  assumes "\<not> (\<forall>c\<in>set cs. matrixStampable n c)"
  shows "getConductanceMatrix cs n w = Inl MatrixIndexOutOfRange"
  using conductanceStampLoop_fail [OF hasSize_MatrixZero assms, of 0 w "[]"]
  by (simp add: getConductanceMatrix_def)

lemma noVS_matrix_eq:
  assumes novs1: "\<forall>c\<in>set cs1. \<not> voltageSourceType (typeid c)"
    and novs2: "\<forall>c\<in>set cs2. \<not> voltageSourceType (typeid c)"
    and ok: "(\<forall>c\<in>set cs1. matrixStampable n c) \<longleftrightarrow> (\<forall>c\<in>set cs2. matrixStampable n c)"
    and sums: "\<And>r k. sum_list (map (\<lambda>c. matrixStamp c w r k) cs1) =
                 sum_list (map (\<lambda>c. matrixStamp c w r k) cs2)"
  shows "getConductanceMatrix cs1 n w = getConductanceMatrix cs2 n w"
proof (cases "\<forall>c\<in>set cs1. matrixStampable n c")
  case True
  then have ok2: "\<forall>c\<in>set cs2. matrixStampable n c" using ok by simp
  obtain G1 where G1: "getConductanceMatrix cs1 n w = Inr G1" "hasSize G1 n"
    "\<forall>r<n. \<forall>k<n. G1 ! r ! k = sum_list (map (\<lambda>c. matrixStamp c w r k) cs1)"
    using noVS_matrix_ok [OF novs1 True] by blast
  obtain G2 where G2: "getConductanceMatrix cs2 n w = Inr G2" "hasSize G2 n"
    "\<forall>r<n. \<forall>k<n. G2 ! r ! k = sum_list (map (\<lambda>c. matrixStamp c w r k) cs2)"
    using noVS_matrix_ok [OF novs2 ok2] by blast
  have "G1 = G2"
  proof (rule matrix_eqI [OF G1(2) G2(2)])
    fix r k assume "r < n" "k < n"
    then show "G1 ! r ! k = G2 ! r ! k"
      using G1(3) G2(3) sums by simp
  qed
  then show ?thesis using G1(1) G2(1) by simp
next
  case False
  then have "\<not> (\<forall>c\<in>set cs2. matrixStampable n c)" using ok by simp
  then show ?thesis
    using noVS_matrix_fail [OF False] noVS_matrix_fail [of cs2 n w] by simp
qed

lemma VectorZero_nth: "k < n \<Longrightarrow> VectorZero n ! k = 0"
  by (simp add: VectorZero_def)

lemma noVS_vector_ok:
  assumes novs: "\<forall>c\<in>set cs. \<not> voltageSourceType (typeid c)"
    and ok: "\<forall>c\<in>set cs. vectorStampable n c"
  shows "\<exists>I. getCurrentVector cs n = Inr I \<and> length I = n \<and>
           (\<forall>k<n. I ! k = sum_list (map (\<lambda>c. vectorStamp c k) cs))"
proof -
  have zl: "length (VectorZero n) = n" by (simp add: VectorZero_def)
  obtain v vs where loop:
    "currentStampLoop cs 0 (VectorZero n) [] = Inr (v, vs)"
    "length vs = length ([]::nat list) + length (filter (\<lambda>c. voltageSourceType (typeid c)) cs)"
    "length v = n"
    "\<forall>k<n. v ! k = VectorZero n ! k + sum_list (map (\<lambda>c. vectorStamp c k) cs)"
    using currentStampLoop_ok [OF zl ok, of 0 "[]"] by blast
  have "vs = []"
    using loop(2) filter_voltage_sources_empty [OF novs] by simp
  then have "getCurrentVector cs n = Inr v"
    using loop(1) by (simp add: getCurrentVector_def)
  moreover have "\<forall>k<n. v ! k = sum_list (map (\<lambda>c. vectorStamp c k) cs)"
    using loop(4) by (simp add: VectorZero_nth)
  ultimately show ?thesis using loop(3) by blast
qed

lemma noVS_vector_fail:
  assumes "\<not> (\<forall>c\<in>set cs. vectorStampable n c)"
  shows "\<exists>e. getCurrentVector cs n = Inl e"
proof -
  have zl: "length (VectorZero n) = n" by (simp add: VectorZero_def)
  from currentStampLoop_fail [OF zl assms, of 0 "[]"] show ?thesis
    by (auto simp add: getCurrentVector_def)
qed

section \<open>Facts about the rounded stamps\<close>

lemma bindE_assoc: "bindE (bindE m f) g = bindE m (\<lambda>x. bindE (f x) g)"
  by (cases m) simp_all

lemma matrixModify_cond:
  assumes size: "hasSize m n" and rng: "P \<Longrightarrow> inRange i n \<and> inRange j n"
  shows "\<exists>m'. (if P then matrixModify m i j f else Inr m) = Inr m' \<and> hasSize m' n \<and>
           (\<forall>r<n. \<forall>k<n. m' ! r ! k = (if P \<and> int r = i \<and> int k = j then f (m ! r ! k) else m ! r ! k))"
proof (cases P)
  case True
  then have "inRange i n" "inRange j n" using rng by simp_all
  from matrixModify_ok [OF size this, of f] show ?thesis
    using True by simp
next
  case False
  then show ?thesis using size by simp
qed

lemma twoTerminalRounded_unfold:
  assumes "1 < length nodes" and "a = nodes ! 0" and "b = nodes ! 1"
  shows "matrixHandleTwoTerminalComponentRounded rnd m c nodes w =
     bindE (if a \<noteq> 0 \<and> b \<noteq> 0
            then matrixModify m (a - 1) (b - 1) (\<lambda>x. rnd (x - getConductance c a b w))
            else Inr m)
       (\<lambda>m1. bindE (if a \<noteq> 0 \<and> b \<noteq> 0
                     then matrixModify m1 (b - 1) (a - 1) (\<lambda>x. rnd (x - getConductance c b a w))
                     else Inr m1)
       (\<lambda>m2. bindE (if a \<noteq> 0
                     then matrixModify m2 (a - 1) (a - 1) (\<lambda>x. rnd (x + getConductance c a b w))
                     else Inr m2)
       (\<lambda>m3. if b \<noteq> 0
              then matrixModify m3 (b - 1) (b - 1) (\<lambda>x. rnd (x + getConductance c b a w))
              else Inr m3)))"
proof -
  have e: "elemAt nodes 0 NodeIndexOutOfRange = Inr a"
    "elemAt nodes 1 NodeIndexOutOfRange = Inr b"
    "elemAt nodes (of_bool ((1::int) \<noteq> 0)) NodeIndexOutOfRange = Inr b"
  proof -
    have "0 < length nodes" using assms(1) by arith
    then show "elemAt nodes 0 NodeIndexOutOfRange = Inr a"
      using assms(2) by (simp add: elemAt_def)
    show "elemAt nodes 1 NodeIndexOutOfRange = Inr b"
      using assms(1,3) by (simp add: elemAt_def)
    then show "elemAt nodes (of_bool ((1::int) \<noteq> 0)) NodeIndexOutOfRange = Inr b"
      by simp
  qed
  show ?thesis
    unfolding matrixHandleTwoTerminalComponentRounded_def e
    by (cases "a = 0"; cases "b = 0"; simp add: bindE_assoc)
qed

lemma twoTerminalRounded_ok:
  assumes size: "hasSize m n" and len: "1 < length nodes"
    and a: "a = nodes ! 0" "0 \<le> a" "a \<le> int n"
    and b: "b = nodes ! 1" "0 \<le> b" "b \<le> int n"
  shows "\<exists>m'. matrixHandleTwoTerminalComponentRounded rnd m c nodes w = Inr m' \<and> hasSize m' n \<and>
           (\<forall>r<n. \<forall>k<n. m' ! r ! k =
              twoTerminalEntry rnd a b (getConductance c a b w) (getConductance c b a w) r k
                (m ! r ! k))"
proof -
  let ?yab = "getConductance c a b w" and ?yba = "getConductance c b a w"
  have ra: "a \<noteq> 0 \<Longrightarrow> inRange (a - 1) n" and rb: "b \<noteq> 0 \<Longrightarrow> inRange (b - 1) n"
    using a b by (simp_all add: inRange_node)
  obtain m1 where m1:
    "(if a \<noteq> 0 \<and> b \<noteq> 0 then matrixModify m (a - 1) (b - 1) (\<lambda>x. rnd (x - ?yab)) else Inr m)
       = Inr m1" "hasSize m1 n"
    "\<forall>r<n. \<forall>k<n. m1 ! r ! k =
       (if (a \<noteq> 0 \<and> b \<noteq> 0) \<and> int r = a - 1 \<and> int k = b - 1 then rnd (m ! r ! k - ?yab)
        else m ! r ! k)"
    using matrixModify_cond [OF size, of "a \<noteq> 0 \<and> b \<noteq> 0" "a - 1" "b - 1"
        "\<lambda>x. rnd (x - ?yab)"] ra rb by blast
  obtain m2 where m2:
    "(if a \<noteq> 0 \<and> b \<noteq> 0 then matrixModify m1 (b - 1) (a - 1) (\<lambda>x. rnd (x - ?yba)) else Inr m1)
       = Inr m2" "hasSize m2 n"
    "\<forall>r<n. \<forall>k<n. m2 ! r ! k =
       (if (a \<noteq> 0 \<and> b \<noteq> 0) \<and> int r = b - 1 \<and> int k = a - 1 then rnd (m1 ! r ! k - ?yba)
        else m1 ! r ! k)"
    using matrixModify_cond [OF m1(2), of "a \<noteq> 0 \<and> b \<noteq> 0" "b - 1" "a - 1"
        "\<lambda>x. rnd (x - ?yba)"] ra rb by blast
  obtain m3 where m3:
    "(if a \<noteq> 0 then matrixModify m2 (a - 1) (a - 1) (\<lambda>x. rnd (x + ?yab)) else Inr m2)
       = Inr m3" "hasSize m3 n"
    "\<forall>r<n. \<forall>k<n. m3 ! r ! k =
       (if a \<noteq> 0 \<and> int r = a - 1 \<and> int k = a - 1 then rnd (m2 ! r ! k + ?yab)
        else m2 ! r ! k)"
    using matrixModify_cond [OF m2(2), of "a \<noteq> 0" "a - 1" "a - 1" "\<lambda>x. rnd (x + ?yab)"] ra
    by blast
  obtain m4 where m4:
    "(if b \<noteq> 0 then matrixModify m3 (b - 1) (b - 1) (\<lambda>x. rnd (x + ?yba)) else Inr m3)
       = Inr m4" "hasSize m4 n"
    "\<forall>r<n. \<forall>k<n. m4 ! r ! k =
       (if b \<noteq> 0 \<and> int r = b - 1 \<and> int k = b - 1 then rnd (m3 ! r ! k + ?yba)
        else m3 ! r ! k)"
    using matrixModify_cond [OF m3(2), of "b \<noteq> 0" "b - 1" "b - 1" "\<lambda>x. rnd (x + ?yba)"] rb
    by blast
  have "matrixHandleTwoTerminalComponentRounded rnd m c nodes w = Inr m4"
    unfolding twoTerminalRounded_unfold [OF len a(1) b(1)] m1(1) bindE_Inr m2(1) m3(1) m4(1) ..
  moreover have "\<forall>r<n. \<forall>k<n. m4 ! r ! k = twoTerminalEntry rnd a b ?yab ?yba r k (m ! r ! k)"
  proof (intro allI impI)
    fix r k assume rk: "r < n" "k < n"
    have "m4 ! r ! k =
       (if b \<noteq> 0 \<and> int r = b - 1 \<and> int k = b - 1 then rnd (m3 ! r ! k + ?yba) else m3 ! r ! k)"
      using m4(3) rk by blast
    moreover have "m3 ! r ! k =
       (if a \<noteq> 0 \<and> int r = a - 1 \<and> int k = a - 1 then rnd (m2 ! r ! k + ?yab) else m2 ! r ! k)"
      using m3(3) rk by blast
    moreover have "m2 ! r ! k =
       (if a \<noteq> 0 \<and> b \<noteq> 0 \<and> int r = b - 1 \<and> int k = a - 1 then rnd (m1 ! r ! k - ?yba)
        else m1 ! r ! k)"
      using m2(3) rk unfolding conj_assoc by blast
    moreover have "m1 ! r ! k =
       (if a \<noteq> 0 \<and> b \<noteq> 0 \<and> int r = a - 1 \<and> int k = b - 1 then rnd (m ! r ! k - ?yab)
        else m ! r ! k)"
      using m1(3) rk unfolding conj_assoc by blast
    ultimately show "m4 ! r ! k = twoTerminalEntry rnd a b ?yab ?yba r k (m ! r ! k)"
      unfolding twoTerminalEntry_def Let_def by (simp only:)
  qed
  ultimately show ?thesis using m4(2) by blast
qed


lemma updateConductanceMatrixRounded_ok:
  assumes size: "hasSize m n" and ok: "matrixStampable n c"
  shows "\<exists>m'. updateConductanceMatrixRounded rnd m c flag w =
             Inr (m', flag \<or> voltageSourceType (typeid c)) \<and>
           hasSize m' n \<and> (\<forall>r<n. \<forall>k<n. m' ! r ! k = matrixEntry rnd w r k c (m ! r ! k))"
proof (cases "twoTerminalRouted c")
  case False
  then have "updateConductanceMatrixRounded rnd m c flag w =
      Inr (m, flag \<or> voltageSourceType (typeid c))"
    by (auto simp add: updateConductanceMatrixRounded_def twoTerminalRouted_def
        voltageSourceType_def currentSourceType_def Let_def)
  then show ?thesis using size False by (simp add: matrixEntry_def)
next
  case True
  then have len: "length (getNodes c) = 2" and t: "\<not> currentSourceType (typeid c)"
    "\<not> voltageSourceType (typeid c)"
    by (simp_all add: twoTerminalRouted_def)
  have upd: "updateConductanceMatrixRounded rnd m c flag w =
      bindE (matrixHandleTwoTerminalComponentRounded rnd m c (getNodes c) w)
        (\<lambda>m'. Inr (m', flag))"
    using t len by (simp add: updateConductanceMatrixRounded_def voltageSourceType_def
        currentSourceType_def Let_def)
  have rng: "0 \<le> getNodes c ! 0" "getNodes c ! 0 \<le> int n"
    "0 \<le> getNodes c ! 1" "getNodes c ! 1 \<le> int n"
    using ok True len by (simp_all add: matrixStampable_def nodesInRange_def list_all_length)
  have l1: "1 < length (getNodes c)" using len by simp
  obtain m' where m': "matrixHandleTwoTerminalComponentRounded rnd m c (getNodes c) w = Inr m'"
    "hasSize m' n"
    "\<forall>r<n. \<forall>k<n. m' ! r ! k =
        twoTerminalEntry rnd (getNodes c ! 0) (getNodes c ! 1)
          (getConductance c (getNodes c ! 0) (getNodes c ! 1) w)
          (getConductance c (getNodes c ! 1) (getNodes c ! 0) w) r k (m ! r ! k)"
    using twoTerminalRounded_ok [OF size l1 refl rng(1,2) refl rng(3,4)] by blast
  have "updateConductanceMatrixRounded rnd m c flag w =
      Inr (m', flag \<or> voltageSourceType (typeid c))"
    unfolding upd using m'(1) t by simp
  moreover have "\<forall>r<n. \<forall>k<n. m' ! r ! k = matrixEntry rnd w r k c (m ! r ! k)"
    using m'(3) True by (simp add: matrixEntry_def)
  ultimately show ?thesis using m'(2) by blast
qed


lemma conductanceStampLoopRounded_ok:
  assumes "hasSize m n" and "\<forall>c\<in>set cs. matrixStampable n c"
  shows "\<exists>m' vs'. conductanceStampLoopRounded rnd cs i w m vs = Inr (m', vs') \<and>
           length vs' = length vs + length (filter (\<lambda>c. voltageSourceType (typeid c)) cs) \<and>
           hasSize m' n \<and>
           (\<forall>r<n. \<forall>k<n. m' ! r ! k = fold (matrixEntry rnd w r k) cs (m ! r ! k))"
  using assms
proof (induction cs arbitrary: m i vs)
  case Nil
  then show ?case by simp
next
  case (Cons c cs)
  let ?vs1 = "if False \<or> voltageSourceType (typeid c) then vs @ [i] else vs"
  obtain m1 where m1:
    "updateConductanceMatrixRounded rnd m c False w =
       Inr (m1, False \<or> voltageSourceType (typeid c))"
    "hasSize m1 n" "\<forall>r<n. \<forall>k<n. m1 ! r ! k = matrixEntry rnd w r k c (m ! r ! k)"
    using updateConductanceMatrixRounded_ok [OF Cons.prems(1), of c rnd False w] Cons.prems(2)
    by auto
  obtain m' vs' where rest:
    "conductanceStampLoopRounded rnd cs (Suc i) w m1 ?vs1 = Inr (m', vs')"
    "length vs' = length ?vs1 + length (filter (\<lambda>c. voltageSourceType (typeid c)) cs)"
    "hasSize m' n"
    "\<forall>r<n. \<forall>k<n. m' ! r ! k = fold (matrixEntry rnd w r k) cs (m1 ! r ! k)"
    using Cons.IH [OF m1(2), of "Suc i" ?vs1] Cons.prems(2) by auto
  have "conductanceStampLoopRounded rnd (c # cs) i w m vs = Inr (m', vs')"
    using m1(1) rest(1) by simp
  moreover have "length vs' =
      length vs + length (filter (\<lambda>c. voltageSourceType (typeid c)) (c # cs))"
    using rest(2) by simp
  moreover have "\<forall>r<n. \<forall>k<n. m' ! r ! k = fold (matrixEntry rnd w r k) (c # cs) (m ! r ! k)"
    using m1(3) rest(4) by simp
  ultimately show ?case using rest(3) by blast
qed


lemma noVS_matrixRounded_ok:
  assumes novs: "\<forall>c\<in>set cs. \<not> voltageSourceType (typeid c)"
    and ok: "\<forall>c\<in>set cs. matrixStampable n c"
  shows "\<exists>G. getConductanceMatrixRounded rnd cs n w = Inr G \<and> hasSize G n \<and>
           (\<forall>r<n. \<forall>k<n. G ! r ! k = fold (matrixEntry rnd w r k) cs 0)"
proof -
  obtain m vs where loop:
    "conductanceStampLoopRounded rnd cs 0 w (MatrixZero n n) [] = Inr (m, vs)"
    "length vs = length ([]::nat list) + length (filter (\<lambda>c. voltageSourceType (typeid c)) cs)"
    "hasSize m n"
    "\<forall>r<n. \<forall>k<n. m ! r ! k = fold (matrixEntry rnd w r k) cs (MatrixZero n n ! r ! k)"
    using conductanceStampLoopRounded_ok [OF hasSize_MatrixZero ok, of rnd 0 w "[]"] by blast
  have "vs = []"
    using loop(2) filter_voltage_sources_empty [OF novs] by simp
  then have "getConductanceMatrixRounded rnd cs n w = Inr m"
    using loop(1) by (simp add: getConductanceMatrixRounded_def)
  moreover have "\<forall>r<n. \<forall>k<n. m ! r ! k = fold (matrixEntry rnd w r k) cs 0"
    using loop(4) by (simp add: MatrixZero_nth)
  ultimately show ?thesis using loop(3) by blast
qed











lemma stepIf_False: "stepIf False f x = x"
  by (simp add: stepIf_def)

lemma stepIf_commute: "\<not> (p \<and> q) \<Longrightarrow> stepIf q f (stepIf p f x) = stepIf p f (stepIf q f x)"
  by (cases p; cases q) (simp_all add: stepIf_def)

lemma stepIf_diagonal:
  "stepIf B g (stepIf A g (stepIf (A \<and> B) h (stepIf (A \<and> B) h x))) =
     (if A \<and> B then g (g (h (h x))) else if A \<or> B then g x else x)"
  by (cases A; cases B) (simp_all add: stepIf_def)

lemma twoTerminalEntry_steps:
  "twoTerminalEntry rnd a b yab yba r k x =
     stepIf (b \<noteq> 0 \<and> int r = b - 1 \<and> int k = b - 1) (\<lambda>x. rnd (x + yba))
       (stepIf (a \<noteq> 0 \<and> int r = a - 1 \<and> int k = a - 1) (\<lambda>x. rnd (x + yab))
         (stepIf (a \<noteq> 0 \<and> b \<noteq> 0 \<and> int r = b - 1 \<and> int k = a - 1) (\<lambda>x. rnd (x - yba))
           (stepIf (a \<noteq> 0 \<and> b \<noteq> 0 \<and> int r = a - 1 \<and> int k = b - 1) (\<lambda>x. rnd (x - yab)) x)))"
  by (simp only: twoTerminalEntry_def Let_def stepIf_def)


lemma twoTerminalEntry_sym:
  "twoTerminalEntry rnd a b y y r k x = twoTerminalEntry rnd a b y y k r x"
proof (cases "r = k")
  case True
  then show ?thesis by simp
next
  case False
  have diag:
    "(b \<noteq> 0 \<and> int r = b - 1 \<and> int k = b - 1) = False"
    "(a \<noteq> 0 \<and> int r = a - 1 \<and> int k = a - 1) = False"
    "(b \<noteq> 0 \<and> int k = b - 1 \<and> int r = b - 1) = False"
    "(a \<noteq> 0 \<and> int k = a - 1 \<and> int r = a - 1) = False"
    using False by auto
  have swap:
    "(a \<noteq> 0 \<and> b \<noteq> 0 \<and> int k = b - 1 \<and> int r = a - 1) =
     (a \<noteq> 0 \<and> b \<noteq> 0 \<and> int r = a - 1 \<and> int k = b - 1)"
    "(a \<noteq> 0 \<and> b \<noteq> 0 \<and> int k = a - 1 \<and> int r = b - 1) =
     (a \<noteq> 0 \<and> b \<noteq> 0 \<and> int r = b - 1 \<and> int k = a - 1)"
    by blast+
  have excl: "\<not> ((a \<noteq> 0 \<and> b \<noteq> 0 \<and> int r = a - 1 \<and> int k = b - 1) \<and>
      (a \<noteq> 0 \<and> b \<noteq> 0 \<and> int r = b - 1 \<and> int k = a - 1))"
    using False by linarith
  have "twoTerminalEntry rnd a b y y k r x =
      stepIf (a \<noteq> 0 \<and> b \<noteq> 0 \<and> int r = a - 1 \<and> int k = b - 1) (\<lambda>x. rnd (x - y))
        (stepIf (a \<noteq> 0 \<and> b \<noteq> 0 \<and> int r = b - 1 \<and> int k = a - 1) (\<lambda>x. rnd (x - y)) x)"
    unfolding twoTerminalEntry_steps [of rnd a b y y k r] diag swap stepIf_False ..
  also have "\<dots> =
      stepIf (a \<noteq> 0 \<and> b \<noteq> 0 \<and> int r = b - 1 \<and> int k = a - 1) (\<lambda>x. rnd (x - y))
        (stepIf (a \<noteq> 0 \<and> b \<noteq> 0 \<and> int r = a - 1 \<and> int k = b - 1) (\<lambda>x. rnd (x - y)) x)"
    using excl by (rule stepIf_commute [symmetric])
  also have "\<dots> = twoTerminalEntry rnd a b y y r k x"
    unfolding twoTerminalEntry_steps [of rnd a b y y r k] diag stepIf_False ..
  finally show ?thesis by simp
qed

lemma twoTerminalEntry_diag:
  "twoTerminalEntry rnd a b y y i i x =
     (if a = int i + 1 \<and> b = int i + 1 then rnd (rnd (rnd (rnd (x - y) - y) + y) + y)
      else if a = int i + 1 \<or> b = int i + 1 then rnd (x + y)
      else x)"
proof -
  have eqs:
    "(b \<noteq> 0 \<and> int i = b - 1 \<and> int i = b - 1) = (b = int i + 1)"
    "(a \<noteq> 0 \<and> int i = a - 1 \<and> int i = a - 1) = (a = int i + 1)"
    "(a \<noteq> 0 \<and> b \<noteq> 0 \<and> int i = b - 1 \<and> int i = a - 1) = (a = int i + 1 \<and> b = int i + 1)"
    "(a \<noteq> 0 \<and> b \<noteq> 0 \<and> int i = a - 1 \<and> int i = b - 1) = (a = int i + 1 \<and> b = int i + 1)"
    by linarith+
  show ?thesis
    unfolding twoTerminalEntry_steps eqs by (rule stepIf_diagonal)
qed


lemma fold_cong_set:
  assumes "\<And>c x. c \<in> set cs \<Longrightarrow> f c x = g c x"
  shows "fold f cs x = fold g cs x"
  using assms by (induction cs arbitrary: x) simp_all




lemma roundDouble_eval:
  assumes "2 powr of_int e \<le> \<bar>x\<bar>" and "\<bar>x\<bar> < 2 powr (of_int e + 1)" and "- 1022 \<le> e"
  shows "roundDouble x =
     of_int (roundToEven (x / 2 powr (of_int e - 52))) * 2 powr (of_int e - 52)"
proof -
  have "0 < (2::real) powr of_int e" by simp
  then have pos: "0 < \<bar>x\<bar>" using assms(1) by linarith
  then have "\<lfloor>log 2 \<bar>x\<bar>\<rfloor> = e"
    using assms(1,2) by (simp add: floor_log_eq_powr_iff)
  then show ?thesis
    using pos assms(3) by (simp add: roundDouble_def Let_def max_def)
qed

lemma roundDouble_values:
  "roundDouble 1 = 1"
  "roundDouble 2 = 2"
  "roundDouble 9007199254740992 = 9007199254740992"
  "roundDouble 9007199254740993 = 9007199254740992"
  "roundDouble 9007199254740994 = 9007199254740994"
  "roundDouble (- 1) = - 1"
  "roundDouble (- 2) = - 2"
proof -
  show "roundDouble 1 = 1"
    using roundDouble_eval [of 0 1] by (simp add: roundToEven_def powr_minus)
  show "roundDouble 2 = 2"
    using roundDouble_eval [of 1 2] by (simp add: roundToEven_def powr_minus)
  show "roundDouble 9007199254740992 = 9007199254740992"
    using roundDouble_eval [of 53 9007199254740992] by (simp add: roundToEven_def)
  show "roundDouble 9007199254740993 = 9007199254740992"
    using roundDouble_eval [of 53 9007199254740993] by (simp add: roundToEven_def)
  show "roundDouble 9007199254740994 = 9007199254740994"
    using roundDouble_eval [of 53 9007199254740994] by (simp add: roundToEven_def)
  show "roundDouble (- 1) = - 1"
    using roundDouble_eval [of 0 "- 1"] by (simp add: roundToEven_def powr_minus)
  show "roundDouble (- 2) = - 2"
    using roundDouble_eval [of 1 "- 2"] by (simp add: roundToEven_def powr_minus)
qed

lemma roundDouble_zero: "roundDouble 0 = 0"
  by (simp add: roundDouble_def)

lemma roundComplex_values:
  "roundComplex 0 = 0"
  "roundComplex 1 = 1"
  "roundComplex 2 = 2"
  "roundComplex 9007199254740992 = 9007199254740992"
  "roundComplex 9007199254740993 = 9007199254740992"
  "roundComplex 9007199254740994 = 9007199254740994"
  "roundComplex (- 1) = - 1"
  "roundComplex (- 2) = - 2"
  by (simp_all add: roundComplex_def roundDouble_values roundDouble_zero complex_eq_iff)

lemmas eval_rounded_defs = getConductanceMatrixRounded_def getCurrentVectorRounded_def
  updateConductanceMatrixRounded_def updateCurrentVectorRounded_def
  matrixHandleTwoTerminalComponentRounded_def matrixHandleVoltageSourceRounded_def
  vectorHandleACCurrentSourceRounded_def matrixRowSubSelfRounded_def
  elemAt_def MatrixZero_def VectorZero_def matrixModify_def vectorModify_def
  inRange_def exampleAdmittance_def exampleSource_def Let_def

lemma matrixHandleTwoTerminalComponentRounded_id:
  "matrixHandleTwoTerminalComponentRounded (\<lambda>x. x) = matrixHandleTwoTerminalComponent"
  by (intro ext)
    (simp only: matrixHandleTwoTerminalComponentRounded_def matrixHandleTwoTerminalComponent_def)

lemma matrixHandleVoltageSourceRounded_id:
  "matrixHandleVoltageSourceRounded (\<lambda>x. x) = matrixHandleVoltageSource"
  by (intro ext)
    (simp only: matrixHandleVoltageSourceRounded_def matrixHandleVoltageSource_def
      matrixRowSubSelfRounded_def matrixRowSubSelf_def)

lemma updateConductanceMatrixRounded_id:
  "updateConductanceMatrixRounded (\<lambda>x. x) = updateConductanceMatrix"
  by (intro ext)
    (simp only: updateConductanceMatrixRounded_def updateConductanceMatrix_def
      matrixHandleTwoTerminalComponentRounded_id)

lemma conductanceStampLoopRounded_id:
  "conductanceStampLoopRounded (\<lambda>x. x) cs i w m vs = conductanceStampLoop cs i w m vs"
  by (induction cs arbitrary: i m vs) (simp_all add: updateConductanceMatrixRounded_id)

lemma conductanceSourceLoopRounded_id:
  "conductanceSourceLoopRounded (\<lambda>x. x) components is m = conductanceSourceLoop components is m"
proof (induction "is" arbitrary: m)
  case Nil
  show ?case by simp
next
  case (Cons i "is")
  have "conductanceSourceLoopRounded (\<lambda>x. x) components is = conductanceSourceLoop components is"
    by (rule ext) (rule Cons.IH)
  then show ?case by (simp add: matrixHandleVoltageSourceRounded_id)
qed

lemma getConductanceMatrixRounded_id:
  "getConductanceMatrixRounded (\<lambda>x. x) = getConductanceMatrix"
  by (intro ext)
    (simp add: getConductanceMatrixRounded_def getConductanceMatrix_def
      conductanceStampLoopRounded_id conductanceSourceLoopRounded_id)

lemma vectorHandleACCurrentSourceRounded_id:
  "vectorHandleACCurrentSourceRounded (\<lambda>x. x) = vectorHandleACCurrentSource"
  by (intro ext)
    (simp only: vectorHandleACCurrentSourceRounded_def vectorHandleACCurrentSource_def)

lemma updateCurrentVectorRounded_id: "updateCurrentVectorRounded (\<lambda>x. x) = updateCurrentVector"
  by (intro ext)
    (simp only: updateCurrentVectorRounded_def updateCurrentVector_def
      vectorHandleACCurrentSourceRounded_id)

lemma currentStampLoopRounded_id:
  "currentStampLoopRounded (\<lambda>x. x) cs i v vs = currentStampLoop cs i v vs"
  by (induction cs arbitrary: i v vs) (simp_all add: updateCurrentVectorRounded_id)

lemma getCurrentVectorRounded_id: "getCurrentVectorRounded (\<lambda>x. x) = getCurrentVector"
  by (intro ext)
    (simp add: getCurrentVectorRounded_def getCurrentVector_def currentStampLoopRounded_id)

section \<open>The stamp of a two-terminal admittance\<close>

text \<open>
  Claim C4. A two-terminal admittance \<open>y\<close> between the nodes \<open>a\<close> and \<open>b\<close> (both within
  \<open>0..n\<close>) is stamped without an index error, and the stamp adds \<open>y\<close> to the diagonal
  coefficient of each of the two nodes that is not ground, and subtracts \<open>y\<close> from the
  two off-diagonal coefficients exactly when both nodes are not ground. Every
  coefficient of the result is the old one plus these contributions.
\<close>

theorem two_terminal_stamp:
  assumes "hasSize G n"
    and "0 \<le> a" and "a \<le> int n" and "0 \<le> b" and "b \<le> int n"
    and "getConductance c a b w = y" and "getConductance c b a w = y"
  shows "\<exists>G'. matrixHandleTwoTerminalComponent G c [a, b] w = Inr G' \<and> hasSize G' n \<and>
           (\<forall>r<n. \<forall>k<n. G' ! r ! k = G ! r ! k
              + (if a \<noteq> 0 \<and> int r = a - 1 \<and> int k = a - 1 then y else 0)
              + (if b \<noteq> 0 \<and> int r = b - 1 \<and> int k = b - 1 then y else 0)
              - (if a \<noteq> 0 \<and> b \<noteq> 0 \<and> int r = a - 1 \<and> int k = b - 1 then y else 0)
              - (if a \<noteq> 0 \<and> b \<noteq> 0 \<and> int r = b - 1 \<and> int k = a - 1 then y else 0))"
proof -
  have "\<exists>G'. matrixHandleTwoTerminalComponent G c [a, b] w = Inr G' \<and> hasSize G' n \<and>
           (\<forall>r<n. \<forall>k<n. G' ! r ! k = G ! r ! k +
              twoTerminalStamp a b (getConductance c a b w) (getConductance c b a w) r k)"
    using assms(1-5) by (intro twoTerminal_ok) simp_all
  then show ?thesis
    unfolding twoTerminalStamp_def assms(6,7) add_diff_eq add.assoc [symmetric] .
qed

theorem two_terminal_stamp_witness:
  "hasSize (MatrixZero 2 2) 2 \<and>
   getConductance (exampleAdmittance Resistor 1 2 3) 1 2 0 = 3 \<and>
   (\<exists>G'. matrixHandleTwoTerminalComponent (MatrixZero 2 2) (exampleAdmittance Resistor 1 2 3)
            [1, 2] 0 = Inr G' \<and> hasSize G' 2 \<and>
      (\<forall>r<2. \<forall>k<2. G' ! r ! k = MatrixZero 2 2 ! r ! k
         + (if (1::int) \<noteq> 0 \<and> int r = 1 - 1 \<and> int k = 1 - 1 then 3 else 0)
         + (if (2::int) \<noteq> 0 \<and> int r = 2 - 1 \<and> int k = 2 - 1 then 3 else 0)
         - (if (1::int) \<noteq> 0 \<and> (2::int) \<noteq> 0 \<and> int r = 1 - 1 \<and> int k = 2 - 1 then 3 else 0)
         - (if (1::int) \<noteq> 0 \<and> (2::int) \<noteq> 0 \<and> int r = 2 - 1 \<and> int k = 1 - 1 then 3 else 0)))"
proof (intro conjI)
  show size: "hasSize (MatrixZero 2 2) 2"
    by (rule hasSize_MatrixZero)
  show y: "getConductance (exampleAdmittance Resistor 1 2 3) 1 2 0 = 3"
    by (simp add: exampleAdmittance_def)
  have y': "getConductance (exampleAdmittance Resistor 1 2 3) 2 1 0 = 3"
    by (simp add: exampleAdmittance_def)
  show "\<exists>G'. matrixHandleTwoTerminalComponent (MatrixZero 2 2) (exampleAdmittance Resistor 1 2 3)
            [1, 2] 0 = Inr G' \<and> hasSize G' 2 \<and>
      (\<forall>r<2. \<forall>k<2. G' ! r ! k = MatrixZero 2 2 ! r ! k
         + (if (1::int) \<noteq> 0 \<and> int r = 1 - 1 \<and> int k = 1 - 1 then 3 else 0)
         + (if (2::int) \<noteq> 0 \<and> int r = 2 - 1 \<and> int k = 2 - 1 then 3 else 0)
         - (if (1::int) \<noteq> 0 \<and> (2::int) \<noteq> 0 \<and> int r = 1 - 1 \<and> int k = 2 - 1 then 3 else 0)
         - (if (1::int) \<noteq> 0 \<and> (2::int) \<noteq> 0 \<and> int r = 2 - 1 \<and> int k = 1 - 1 then 3 else 0))"
    by (rule two_terminal_stamp [OF size _ _ _ _ y y']) simp_all
qed

section \<open>Row replacement for voltage sources\<close>

text \<open>
  Claim C1. The row replacements come after all additive stamps, and the \<open>i\<close>-th one
  is meant for the \<open>i\<close>-th voltage source collected. The second loop of
  \<open>getConductanceMatrix\<close> hands \<open>components[i]\<close> to the handler, not
  \<open>components[voltageSources[i]]\<close>. For a resistor of admittance \<open>2\<close> between the
  nodes 1 and 2, followed by a voltage source between node 2 and ground, the row that is
  replaced is the one of node 1, a node of the resistor: the row of node 2, which the
  voltage source constrains, keeps the resistor's stamp \<open>[- 2, 2]\<close>.
\<close>

theorem row_replacement_uses_positional_index:
  "getConductanceMatrix
     [exampleAdmittance Resistor 1 2 2, exampleSource DCVoltageSource [5] 2 0] 2 1
   = Inr [[1, - 1], [- 2, 2]]"
  by (simp add: eval_defs eval_nat_numeral)

text \<open>
  Claim C9. The stamp of a voltage source whose nodes differ changes one row of the
  conductance matrix only, the row of \<open>n+\<close> when \<open>n+\<close> is not ground and the row of
  \<open>n-\<close> otherwise: every other row is the same list of coefficients as before. A
  source whose two nodes are equal leaves the matrix and the excitation vector as they
  are.
\<close>

theorem voltage_source_row_frame:
  assumes size: "hasSize G n" and len: "length I = n"
    and vs: "dcVoltageSource c V nPlus nMinus \<or> acVoltageSource c amplitude phase nPlus nMinus"
    and rng: "0 \<le> nPlus" "nPlus \<le> int n" "0 \<le> nMinus" "nMinus \<le> int n"
  shows "(nPlus \<noteq> nMinus \<longrightarrow>
           (\<exists>G'. matrixHandleVoltageSource G c = Inr G' \<and> hasSize G' n \<and>
              (\<forall>r<n. int r \<noteq> (if nPlus \<noteq> 0 then nPlus else nMinus) - 1 \<longrightarrow> G' ! r = G ! r))) \<and>
         (nPlus = nMinus \<longrightarrow>
            matrixHandleVoltageSource G c = Inr G \<and> vectorHandleVoltageSource I c = Inr I)"
proof -
  have nodes: "getNodes c = [nPlus, nMinus]"
    using vs by (auto simp add: dcVoltageSource_def acVoltageSource_def)
  have l1: "1 < length (getNodes c)" and np: "nPlus = getNodes c ! 0"
    and nm: "nMinus = getNodes c ! 1"
    using nodes by simp_all
  obtain G' where G': "matrixHandleVoltageSource G c = Inr G'" "hasSize G' n"
    "nPlus = nMinus \<longrightarrow> G' = G"
    "\<forall>r. int r \<noteq> (if nPlus \<noteq> 0 then nPlus else nMinus) - 1 \<longrightarrow> G' ! r = G ! r"
    using voltageSource_ok [OF size l1 np rng(1,2) nm rng(3,4)] by blast
  have props: "sourceProperties c"
    using vs by (auto simp add: dcVoltageSource_def acVoltageSource_def sourceProperties_def)
  have "vectorHandleVoltageSource I c = Inr I" if "nPlus = nMinus"
  proof -
    have "sourceRoutable n c"
      using nodes rng by (simp add: sourceRoutable_def)
    from vectorHandleVoltageSource_cases [OF len this] props
    obtain v' where v': "vectorHandleVoltageSource I c = Inr v'" by blast
    have "0 < length (getProperties c)" "typeid c \<noteq> DCVoltageSource \<longrightarrow> 1 < length (getProperties c)"
      using vs by (auto simp add: dcVoltageSource_def acVoltageSource_def)
    then show ?thesis
      unfolding voltageVector_unfold [OF nodes] using that
      by (cases "typeid c = DCVoltageSource") simp_all
  qed
  then show ?thesis using G' by auto
qed

theorem voltage_source_row_frame_witness:
  "hasSize [[1, 2], [3, 4]] 2 \<and>
   dcVoltageSource (exampleSource DCVoltageSource [5] 1 0) 5 1 0 \<and>
   (\<exists>G'. matrixHandleVoltageSource [[1, 2], [3, 4]] (exampleSource DCVoltageSource [5] 1 0) = Inr G' \<and>
      hasSize G' 2 \<and> G' ! 1 = [3, 4]) \<and>
   dcVoltageSource (exampleSource DCVoltageSource [5] 1 1) 5 1 1 \<and>
   matrixHandleVoltageSource [[1, 2], [3, 4]] (exampleSource DCVoltageSource [5] 1 1) =
     Inr [[1, 2], [3, 4]] \<and>
   vectorHandleVoltageSource [7, 8] (exampleSource DCVoltageSource [5] 1 1) = Inr [7, 8]"
proof -
  have size: "hasSize [[1, 2], [3, 4]] 2"
    by (simp add: hasSize_def)
  have len: "length [7, 8 :: complex] = 2" by simp
  have vs: "dcVoltageSource (exampleSource DCVoltageSource [5] 1 0) 5 1 0"
    by (simp add: dcVoltageSource_def exampleSource_def)
  have vs': "dcVoltageSource (exampleSource DCVoltageSource [5] 1 1) 5 1 1"
    by (simp add: dcVoltageSource_def exampleSource_def)
  have vsd: "dcVoltageSource (exampleSource DCVoltageSource [5] 1 0) 5 1 0 \<or>
      acVoltageSource (exampleSource DCVoltageSource [5] 1 0) 0 0 1 0"
    using vs by simp
  have vsd': "dcVoltageSource (exampleSource DCVoltageSource [5] 1 1) 5 1 1 \<or>
      acVoltageSource (exampleSource DCVoltageSource [5] 1 1) 0 0 1 1"
    using vs' by simp
  have a: "\<exists>G'. matrixHandleVoltageSource [[1, 2], [3, 4]] (exampleSource DCVoltageSource [5] 1 0) = Inr G' \<and>
      hasSize G' 2 \<and> G' ! 1 = [3, 4]"
    using voltage_source_row_frame [OF size len vsd] by auto
  have b: "matrixHandleVoltageSource [[1, 2], [3, 4]] (exampleSource DCVoltageSource [5] 1 1) =
     Inr [[1, 2], [3, 4]] \<and>
   vectorHandleVoltageSource [7, 8] (exampleSource DCVoltageSource [5] 1 1) = Inr [7, 8]"
    using voltage_source_row_frame [OF size len vsd'] by simp
  show ?thesis using size vs vs' a b by blast
qed

section \<open>Index accesses\<close>

text \<open>
  Claim C10. Let every node id of every component lie in \<open>0..numNodes\<close>, and let every
  component that reaches a handler reading \<open>nodes[0]\<close> and \<open>nodes[1]\<close> have at least
  two nodes: the AC current sources, and the components \<open>components[i]\<close> for
  \<open>i\<close> below the number of voltage sources, which the second loops hand to the
  voltage-source handlers (the two-terminal handler is only called on two nodes). Then no
  access to the matrix, to the vector, to a node list or to the component list is out of
  range: the conductance matrix is assembled, and the excitation vector is assembled
  unless a component has too few properties.
\<close>

theorem assembly_indices_in_bounds:
  assumes nodes: "\<forall>c\<in>set components. nodesInRange numNodes c"
    and ac: "\<forall>c\<in>set components. typeid c = ACCurrentSource \<longrightarrow> 2 \<le> length (getNodes c)"
    and src: "\<forall>c\<in>set (take (length (filter (\<lambda>c. voltageSourceType (typeid c)) components))
                 components). 2 \<le> length (getNodes c)"
  shows "(\<exists>G. getConductanceMatrix components numNodes angFreq = Inr G \<and> hasSize G numNodes) \<and>
         ((\<exists>I. getCurrentVector components numNodes = Inr I \<and> length I = numNodes) \<or>
          getCurrentVector components numNodes = Inl PropertyIndexOutOfRange)"
proof
  let ?k = "length (filter (\<lambda>c. voltageSourceType (typeid c)) components)"
  have k: "?k \<le> length components" by simp
  note routed = routed_prefix [OF nodes src k]
  have st: "\<forall>c\<in>set components. matrixStampable numNodes c"
    using nodes by (simp add: nodesInRange_matrixStampable)
  obtain m vs where loop1:
    "conductanceStampLoop components 0 angFreq (MatrixZero numNodes numNodes) [] = Inr (m, vs)"
    "length vs = length ([]::nat list) + ?k" "hasSize m numNodes"
    using conductanceStampLoop_ok [OF hasSize_MatrixZero st, of 0 angFreq "[]"] by blast
  obtain G where G: "conductanceSourceLoop components [0 ..< ?k] m = Inr G" "hasSize G numNodes"
    using conductanceSourceLoop_ok [OF loop1(3) routed] by blast
  have "getConductanceMatrix components numNodes angFreq = Inr G"
    using loop1(1,2) G(1) by (simp add: getConductanceMatrix_def)
  then show "\<exists>G. getConductanceMatrix components numNodes angFreq = Inr G \<and> hasSize G numNodes"
    using G(2) by blast
  have zl: "length (VectorZero numNodes) = numNodes" by (simp add: VectorZero_def)
  have acr: "\<forall>c\<in>set components. typeid c = ACCurrentSource \<longrightarrow> sourceRoutable numNodes c"
    using nodes ac by (simp add: nodesInRange_sourceRoutable)
  from currentStampLoop_cases [OF zl acr, of 0 "[]"]
  show "(\<exists>I. getCurrentVector components numNodes = Inr I \<and> length I = numNodes) \<or>
          getCurrentVector components numNodes = Inl PropertyIndexOutOfRange"
  proof
    assume "\<exists>v' vs'. currentStampLoop components 0 (VectorZero numNodes) [] = Inr (v', vs') \<and>
       length vs' = length ([]::nat list) + ?k \<and> length v' = numNodes"
    then obtain v vs' where loopv:
      "currentStampLoop components 0 (VectorZero numNodes) [] = Inr (v, vs')"
      "length vs' = ?k" "length v = numNodes" by auto
    have red: "getCurrentVector components numNodes = currentSourceLoop components [0 ..< ?k] v"
      using loopv(1,2) by (simp add: getCurrentVector_def)
    from currentSourceLoop_cases [OF loopv(3) routed] show ?thesis
      unfolding red by blast
  next
    assume "currentStampLoop components 0 (VectorZero numNodes) [] = Inl PropertyIndexOutOfRange"
    then show ?thesis by (simp add: getCurrentVector_def)
  qed
qed

theorem assembly_indices_in_bounds_witness:
  "list_all (nodesInRange 2)
     [exampleAdmittance Resistor 1 2 2, exampleSource ACCurrentSource [2, 0] 1 2,
      exampleSource DCVoltageSource [5] 2 0] \<and>
   (\<exists>G. getConductanceMatrix
          [exampleAdmittance Resistor 1 2 2, exampleSource ACCurrentSource [2, 0] 1 2,
           exampleSource DCVoltageSource [5] 2 0] 2 1 = Inr G \<and> hasSize G 2) \<and>
   ((\<exists>I. getCurrentVector
          [exampleAdmittance Resistor 1 2 2, exampleSource ACCurrentSource [2, 0] 1 2,
           exampleSource DCVoltageSource [5] 2 0] 2 = Inr I \<and> length I = 2) \<or>
    getCurrentVector
          [exampleAdmittance Resistor 1 2 2, exampleSource ACCurrentSource [2, 0] 1 2,
           exampleSource DCVoltageSource [5] 2 0] 2 = Inl PropertyIndexOutOfRange)"
proof -
  let ?cs = "[exampleAdmittance Resistor 1 2 2, exampleSource ACCurrentSource [2, 0] 1 2,
      exampleSource DCVoltageSource [5] 2 0]"
  have nodes: "\<forall>c\<in>set ?cs. nodesInRange 2 c"
    by (simp add: nodesInRange_def exampleAdmittance_def exampleSource_def)
  have ac: "\<forall>c\<in>set ?cs. typeid c = ACCurrentSource \<longrightarrow> 2 \<le> length (getNodes c)"
    by (simp add: exampleAdmittance_def exampleSource_def)
  have src: "\<forall>c\<in>set (take (length (filter (\<lambda>c. voltageSourceType (typeid c)) ?cs)) ?cs).
      2 \<le> length (getNodes c)"
    by (simp add: exampleAdmittance_def exampleSource_def voltageSourceType_def)
  have "list_all (nodesInRange 2) ?cs"
    using nodes by (simp add: list_all_iff)
  then show ?thesis
    using assembly_indices_in_bounds [OF nodes ac src, of 1] by blast
qed

section \<open>Circuits without voltage sources\<close>

text \<open>
  Claim C5. In \<open>updateConductanceMatrix\<close> a component that is not a source is stamped
  only when it has exactly two nodes. A voltage-controlled current source, with its two
  output nodes and its two control nodes, is therefore not stamped: in a circuit without
  voltage sources the assembled conductance matrix is the same with the controlled
  source as without it, and no coefficient receives the transconductance.
\<close>

theorem controlled_source_not_stamped:
  assumes t: "typeid s = VoltageControlledCurrentSource"
    and nodes: "getNodes s = [nIn, nOut, cIn, cOut]"
    and novs: "\<forall>c\<in>set (before @ after). \<not> voltageSourceType (typeid c)"
  shows "getConductanceMatrix (before @ s # after) numNodes angFreq =
         getConductanceMatrix (before @ after) numNodes angFreq"
proof (rule noVS_matrix_eq)
  have nr: "\<not> twoTerminalRouted s"
    using nodes by (simp add: twoTerminalRouted_def)
  show "\<forall>c\<in>set (before @ s # after). \<not> voltageSourceType (typeid c)"
    using novs t by (auto simp add: voltageSourceType_def)
  show "\<forall>c\<in>set (before @ after). \<not> voltageSourceType (typeid c)"
    by (rule novs)
  show "(\<forall>c\<in>set (before @ s # after). matrixStampable numNodes c) \<longleftrightarrow>
      (\<forall>c\<in>set (before @ after). matrixStampable numNodes c)"
    using nr by (auto simp add: matrixStampable_def)
  show "sum_list (map (\<lambda>c. matrixStamp c angFreq r k) (before @ s # after)) =
      sum_list (map (\<lambda>c. matrixStamp c angFreq r k) (before @ after))" for r k
    using nr by (simp add: matrixStamp_def)
qed

theorem controlled_source_not_stamped_witness:
  "typeid (exampleControlledSource 3 1 0 2 0) = VoltageControlledCurrentSource \<and>
   getNodes (exampleControlledSource 3 1 0 2 0) = [1, 0, 2, 0] \<and>
   getConductanceMatrix
     ([exampleAdmittance Resistor 1 2 2] @ exampleControlledSource 3 1 0 2 0 # []) 2 1 =
   getConductanceMatrix ([exampleAdmittance Resistor 1 2 2] @ []) 2 1"
proof -
  have t: "typeid (exampleControlledSource 3 1 0 2 0) = VoltageControlledCurrentSource"
    and n: "getNodes (exampleControlledSource 3 1 0 2 0) = [1, 0, 2, 0]"
    by (simp_all add: exampleControlledSource_def)
  have novs: "\<forall>c\<in>set ([exampleAdmittance Resistor 1 2 2] @ []). \<not> voltageSourceType (typeid c)"
    by (simp add: exampleAdmittance_def voltageSourceType_def)
  show ?thesis
    using controlled_source_not_stamped [OF t n novs, of 2 1] t n by blast
qed

text \<open>
  For a controlled source of transconductance \<open>3\<close> with the output nodes \<open>(1, 0)\<close>
  and the control nodes \<open>(2, 0)\<close>, the coefficient at row 1 and column 2 would be
  \<open>3\<close> if \<open>gm\<close> were added to \<open>G[a,c]\<close>; the assembled matrix is zero.
\<close>

theorem controlled_source_leaves_zero_matrix:
  "getConductanceMatrix [exampleControlledSource 3 1 0 2 0] 2 1 = Inr [[0, 0], [0, 0]]"
  by (simp add: eval_defs exampleControlledSource_def eval_nat_numeral)

text \<open>
  Claim C6. For a circuit of linear two-terminal admittances whose nodes lie in
  \<open>0..numNodes\<close>, the conductance matrix is assembled and is symmetric at every
  angular frequency, whatever the rounding of the sums. The diagonal coefficient of node
  \<open>i + 1\<close> is what the stamps accumulate in list order, from \<open>0\<close>: a device with
  exactly one terminal on the node adds its admittance, and a device with both terminals
  on the node subtracts its admittance twice and adds it twice, every sum and difference
  rounded to a \<open>double\<close>.
\<close>

theorem admittance_matrix_symmetric:
  assumes adm: "\<forall>c\<in>set components. linearAdmittance c angFreq \<and> nodesInRange numNodes c"
  shows "\<exists>G. getConductanceMatrixRounded rnd components numNodes angFreq = Inr G \<and>
           hasSize G numNodes \<and>
           (\<forall>i<numNodes. \<forall>j<numNodes. G ! i ! j = G ! j ! i) \<and>
           (\<forall>i<numNodes. G ! i ! i = fold (diagonalEntry rnd angFreq i) components 0)"
proof -
  have novs: "\<forall>c\<in>set components. \<not> voltageSourceType (typeid c)"
    using adm by (simp add: linearAdmittance_def twoTerminalRouted_def)
  have ok: "\<forall>c\<in>set components. matrixStampable numNodes c"
    using adm by (simp add: nodesInRange_matrixStampable)
  obtain G where G: "getConductanceMatrixRounded rnd components numNodes angFreq = Inr G"
    "hasSize G numNodes"
    "\<forall>r<numNodes. \<forall>k<numNodes. G ! r ! k = fold (matrixEntry rnd angFreq r k) components 0"
    using noVS_matrixRounded_ok [OF novs ok] by blast
  have entry: "matrixEntry rnd angFreq r k c x =
      twoTerminalEntry rnd (getNodes c ! 0) (getNodes c ! 1) (admittance c angFreq)
        (admittance c angFreq) r k x" if "c \<in> set components" for c r k x
    using adm that by (simp add: matrixEntry_def linearAdmittance_def admittance_def)
  have sym: "\<forall>i<numNodes. \<forall>j<numNodes. G ! i ! j = G ! j ! i"
  proof (intro allI impI)
    fix i j assume ij: "i < numNodes" "j < numNodes"
    have "fold (matrixEntry rnd angFreq i j) components 0 =
        fold (matrixEntry rnd angFreq j i) components 0"
    proof (rule fold_cong_set)
      fix c x assume c: "c \<in> set components"
      show "matrixEntry rnd angFreq i j c x = matrixEntry rnd angFreq j i c x"
        unfolding entry [OF c] by (rule twoTerminalEntry_sym)
    qed
    then show "G ! i ! j = G ! j ! i" using G(3) ij by simp
  qed
  have diag: "\<forall>i<numNodes. G ! i ! i = fold (diagonalEntry rnd angFreq i) components 0"
  proof (intro allI impI)
    fix i assume i: "i < numNodes"
    have "fold (matrixEntry rnd angFreq i i) components 0 =
        fold (diagonalEntry rnd angFreq i) components 0"
    proof (rule fold_cong_set)
      fix c x assume c: "c \<in> set components"
      show "matrixEntry rnd angFreq i i c x = diagonalEntry rnd angFreq i c x"
        unfolding entry [OF c] twoTerminalEntry_diag diagonalEntry_def Let_def ..
    qed
    then show "G ! i ! i = fold (diagonalEntry rnd angFreq i) components 0"
      using G(3) i by simp
  qed
  show ?thesis using G(1,2) sym diag by blast
qed

theorem admittance_matrix_symmetric_witness:
  "list_all (\<lambda>c. linearAdmittance c 1 \<and> nodesInRange 2 c)
     [exampleAdmittance Resistor 1 2 2, exampleAdmittance Capacitor 2 0 3] \<and>
   (\<exists>G. getConductanceMatrixRounded roundComplex
          [exampleAdmittance Resistor 1 2 2, exampleAdmittance Capacitor 2 0 3] 2 1 = Inr G \<and>
        hasSize G 2 \<and> G ! 0 ! 1 = G ! 1 ! 0 \<and>
        G ! 1 ! 1 = roundComplex (roundComplex (0 + 2) + 3))"
proof -
  let ?cs = "[exampleAdmittance Resistor 1 2 2, exampleAdmittance Capacitor 2 0 3]"
  have adm: "\<forall>c\<in>set ?cs. linearAdmittance c 1 \<and> nodesInRange 2 c"
    by (simp add: linearAdmittance_def twoTerminalRouted_def currentSourceType_def
        voltageSourceType_def nodesInRange_def exampleAdmittance_def)
  obtain G where G: "getConductanceMatrixRounded roundComplex ?cs 2 1 = Inr G" "hasSize G 2"
    "\<forall>i<2. \<forall>j<2. G ! i ! j = G ! j ! i"
    "\<forall>i<2. G ! i ! i = fold (diagonalEntry roundComplex 1 i) ?cs 0"
    using admittance_matrix_symmetric [OF adm] by blast
  have "G ! 0 ! 1 = G ! 1 ! 0" using G(3) by simp
  moreover have "G ! 1 ! 1 = roundComplex (roundComplex (0 + 2) + 3)"
    using G(4) by (simp add: diagonalEntry_def admittance_def exampleAdmittance_def)
  moreover have "list_all (\<lambda>c. linearAdmittance c 1 \<and> nodesInRange 2 c) ?cs"
    using adm by (simp add: list_all_iff)
  ultimately show ?thesis using G(1,2) by blast
qed

text \<open>
  A resistor of admittance \<open>1\<close> with both terminals on node 1 is incident at node 1,
  so the sum of the admittances incident at node 1 is \<open>1\<close>; the diagonal coefficient
  is \<open>0\<close>, with exact sums and with sums rounded to a \<open>double\<close>.
\<close>

theorem self_loop_not_on_diagonal:
  "getConductanceMatrix [exampleAdmittance Resistor 1 1 1] 1 0 = Inr [[0]] \<and>
   getConductanceMatrixRounded roundComplex [exampleAdmittance Resistor 1 1 1] 1 0 = Inr [[0]] \<and>
   sum_list (map (\<lambda>c. if 1 \<in> set (getNodes c) then admittance c 0 else 0)
     [exampleAdmittance Resistor 1 1 1]) = 1"
  by (simp add: eval_defs eval_rounded_defs admittance_def roundComplex_values)




section \<open>The excitation of the sources\<close>

text \<open>
  Claim C2. The excitation vector is built without the angular frequency. For a voltage
  source with different nodes at the head of the component list, in a circuit with no
  other voltage source, the entry of its row (the row of \<open>n+\<close>, or of \<open>n-\<close> when
  \<open>n+\<close> is ground) is \<open>0\<close> for a DC source and the phasor
  \<open>rcis amplitude phase\<close> for an AC source, at every angular frequency, \<open>0\<close> included.
\<close>

theorem voltage_source_excitation:
  assumes vs: "dcVoltageSource s V nPlus nMinus \<or> acVoltageSource s amplitude phase nPlus nMinus"
    and ne: "nPlus \<noteq> nMinus"
    and rng: "0 \<le> nPlus" "nPlus \<le> int numNodes" "0 \<le> nMinus" "nMinus \<le> int numNodes"
    and rest: "\<forall>c\<in>set rest. \<not> voltageSourceType (typeid c) \<and>
                 matrixStampable numNodes c \<and> vectorStampable numNodes c"
  shows "\<exists>G I. assembleAtFrequency (s # rest) numNodes angularFrequency = Inr (G, I) \<and>
           length I = numNodes \<and>
           I ! nat ((if nPlus = 0 then nMinus else nPlus) - 1) =
             (if typeid s = DCVoltageSource then 0 else rcis amplitude phase)"
proof -
  let ?cs = "s # rest"
  let ?row = "(if nPlus = 0 then nMinus else nPlus) - 1"
  let ?val = "if typeid s = DCVoltageSource then 0 else rcis amplitude phase"
  have nodes: "getNodes s = nPlus # nMinus # []"
    using vs by (auto simp add: dcVoltageSource_def acVoltageSource_def)
  have ts: "voltageSourceType (typeid s)"
    using vs by (auto simp add: dcVoltageSource_def acVoltageSource_def voltageSourceType_def)
  have k: "length (filter (\<lambda>c. voltageSourceType (typeid c)) ?cs) = 1"
    using ts rest by (simp add: filter_voltage_sources_empty)
  have routable: "sourceRoutable numNodes s"
    using nodes rng by (simp add: sourceRoutable_def)
  have routed: "\<forall>i\<in>set [0 ..< 1]. i < length ?cs \<and> sourceRoutable numNodes (?cs ! i)"
    using routable by simp
  have mst: "\<forall>c\<in>set ?cs. matrixStampable numNodes c"
    using ts rest by (simp add: matrixStampable_def twoTerminalRouted_def)
  obtain m vs1 where loop1:
    "conductanceStampLoop ?cs 0 angularFrequency (MatrixZero numNodes numNodes) [] = Inr (m, vs1)"
    "length vs1 = length ([]::nat list) + length (filter (\<lambda>c. voltageSourceType (typeid c)) ?cs)"
    "hasSize m numNodes"
    using conductanceStampLoop_ok [OF hasSize_MatrixZero mst, of 0 angularFrequency "[]"] by blast
  have l1: "length vs1 = 1" using loop1(2) k by simp
  obtain G where G: "conductanceSourceLoop ?cs [0 ..< 1] m = Inr G"
    using conductanceSourceLoop_ok [OF loop1(3) routed] by blast
  have mat: "getConductanceMatrix ?cs numNodes angularFrequency = Inr G"
    using loop1(1) l1 G by (simp add: getConductanceMatrix_def)
  have zl: "length (VectorZero numNodes) = numNodes" by (simp add: VectorZero_def)
  have vst: "\<forall>c\<in>set ?cs. vectorStampable numNodes c"
    using ts rest by (auto simp add: vectorStampable_def voltageSourceType_def)
  obtain v vs2 where loop2:
    "currentStampLoop ?cs 0 (VectorZero numNodes) [] = Inr (v, vs2)"
    "length vs2 = length ([]::nat list) + length (filter (\<lambda>c. voltageSourceType (typeid c)) ?cs)"
    "length v = numNodes"
    using currentStampLoop_ok [OF zl vst, of 0 "[]"] by blast
  have l2: "length vs2 = 1" using loop2(2) k by simp
  have "?row + 1 \<noteq> 0" using ne by auto
  then have rowr: "inRange ?row numNodes"
    using rng by (auto simp add: inRange_def)
  then have rown: "nat ?row < numNodes" by (auto simp add: inRange_def)
  have volt: "(if typeid s \<noteq> DCVoltageSource
        then bindE (elemAt (getProperties s) 0 PropertyIndexOutOfRange) (\<lambda>amplitude.
             bindE (elemAt (getProperties s) 1 PropertyIndexOutOfRange) (\<lambda>phase.
             Inr (rcis amplitude phase)))
        else bindE (elemAt (getProperties s) 0 PropertyIndexOutOfRange) (\<lambda>p.
             Inr (complex_of_real p))) =
      Inr (if typeid s \<noteq> DCVoltageSource then rcis amplitude phase else complex_of_real V)"
    using vs by (auto simp add: dcVoltageSource_def acVoltageSource_def)
  have handler: "vectorHandleVoltageSource v s = Inr (v[nat ?row := ?val])"
    unfolding voltageVector_unfold [OF nodes] volt
    using ne vectorModify_ok [OF loop2(3) rowr, of "\<lambda>_. ?val"]
    by (cases "typeid s = DCVoltageSource") simp_all
  have vec: "getCurrentVector ?cs numNodes = Inr (v[nat ?row := ?val])"
    using loop2(1) l2 handler by (simp add: getCurrentVector_def)
  have "assembleAtFrequency ?cs numNodes angularFrequency = Inr (G, v[nat ?row := ?val])"
    using mat vec by (simp add: assembleAtFrequency_def)
  moreover have "length (v[nat ?row := ?val]) = numNodes"
    using loop2(3) by simp
  moreover have "v[nat ?row := ?val] ! nat ?row = ?val"
    using loop2(3) rown by simp
  ultimately show ?thesis by blast
qed

theorem voltage_source_excitation_witness:
  "acVoltageSource (exampleSource ACVoltageSource [2, 0] 1 0) 2 0 1 0 \<and>
   (\<exists>G I. assembleAtFrequency
            [exampleSource ACVoltageSource [2, 0] 1 0, exampleAdmittance Resistor 1 2 2] 2 0
            = Inr (G, I) \<and> length I = 2 \<and> I ! 0 = 2)"
proof -
  have vs: "acVoltageSource (exampleSource ACVoltageSource [2, 0] 1 0) 2 0 1 0"
    by (simp add: acVoltageSource_def exampleSource_def)
  then have vsd: "dcVoltageSource (exampleSource ACVoltageSource [2, 0] 1 0) 0 1 0 \<or>
      acVoltageSource (exampleSource ACVoltageSource [2, 0] 1 0) 2 0 1 0"
    by simp
  have rest: "\<forall>c\<in>set [exampleAdmittance Resistor 1 2 2].
      \<not> voltageSourceType (typeid c) \<and> matrixStampable 2 c \<and> vectorStampable 2 c"
    by (simp add: exampleAdmittance_def voltageSourceType_def matrixStampable_def
        vectorStampable_def nodesInRange_def)
  have t: "typeid (exampleSource ACVoltageSource [2, 0] 1 0) \<noteq> DCVoltageSource"
    by (simp add: exampleSource_def)
  have "\<exists>G I. assembleAtFrequency
            [exampleSource ACVoltageSource [2, 0] 1 0, exampleAdmittance Resistor 1 2 2] 2 0
            = Inr (G, I) \<and> length I = 2 \<and> I ! 0 = 2"
    using voltage_source_excitation [OF vsd _ _ _ _ _ rest, of 0] t by simp
  then show ?thesis using vs by blast
qed

text \<open>
  At the angular frequency \<open>0\<close> a DC source of 5 V gives the entry \<open>0\<close>, not \<open>5\<close>,
  and an AC source of amplitude \<open>2\<close> and phase \<open>0\<close> gives the entry \<open>2\<close>, not
  \<open>0\<close>.
\<close>

theorem excitation_ignores_frequency:
  "assembleAtFrequency [exampleSource DCVoltageSource [5] 1 0] 1 0 = Inr ([[1]], [0]) \<and>
   assembleAtFrequency [exampleSource ACVoltageSource [2, 0] 1 0] 1 0 = Inr ([[1]], [2])"
  by (simp add: eval_defs)

text \<open>
  Claim C3. The stamp of an AC current source with the phasor
  \<open>rcis amplitude phase\<close> between \<open>nIn\<close> and \<open>nOut\<close> subtracts the phasor from the
  entry of \<open>nIn\<close> and adds it to the entry of \<open>nOut\<close>, leaving out a ground node. A
  DC current source leaves the excitation vector as it is: \<open>updateCurrentVector\<close>
  stamps AC sources only.
\<close>

theorem current_source_stamp:
  assumes len: "length I = n" and nodes: "getNodes c = [nIn, nOut]"
    and rng: "0 \<le> nIn" "nIn \<le> int n" "0 \<le> nOut" "nOut \<le> int n"
  shows "(typeid c = ACCurrentSource \<and> getProperties c = [amplitude, phase] \<longrightarrow>
            (\<exists>I'. updateCurrentVector I c flag = Inr (I', flag) \<and> length I' = n \<and>
               (\<forall>k<n. I' ! k = I ! k
                  - (if nIn \<noteq> 0 \<and> int k = nIn - 1 then rcis amplitude phase else 0)
                  + (if nOut \<noteq> 0 \<and> int k = nOut - 1 then rcis amplitude phase else 0)))) \<and>
         (typeid c = DCCurrentSource \<longrightarrow> updateCurrentVector I c flag = Inr (I, flag))"
proof (intro conjI impI)
  assume ac: "typeid c = ACCurrentSource \<and> getProperties c = [amplitude, phase]"
  then have props: "getProperties c = amplitude # phase # []" by simp
  have nodes': "getNodes c = nIn # nOut # []" using nodes by simp
  obtain I' where I': "vectorHandleACCurrentSource I c = Inr I'" "length I' = n"
    "\<forall>k<n. I' ! k = I ! k + currentStamp nIn nOut (rcis amplitude phase) k"
    using acCurrent_ok [OF len props nodes' rng] by blast
  have "updateCurrentVector I c flag = Inr (I', flag)"
    using ac I'(1) by (simp add: updateCurrentVector_def)
  moreover have "\<forall>k<n. I' ! k = I ! k
      - (if nIn \<noteq> 0 \<and> int k = nIn - 1 then rcis amplitude phase else 0)
      + (if nOut \<noteq> 0 \<and> int k = nOut - 1 then rcis amplitude phase else 0)"
    using I'(3) unfolding currentStamp_def by (simp only: algebra_simps)
  ultimately show "\<exists>I'. updateCurrentVector I c flag = Inr (I', flag) \<and> length I' = n \<and>
      (\<forall>k<n. I' ! k = I ! k
         - (if nIn \<noteq> 0 \<and> int k = nIn - 1 then rcis amplitude phase else 0)
         + (if nOut \<noteq> 0 \<and> int k = nOut - 1 then rcis amplitude phase else 0))"
    using I'(2) by blast
next
  assume "typeid c = DCCurrentSource"
  then show "updateCurrentVector I c flag = Inr (I, flag)"
    by (simp add: updateCurrentVector_def)
qed

theorem current_source_stamp_witness:
  "getNodes (exampleSource ACCurrentSource [2, 0] 1 2) = [1, 2] \<and>
   getProperties (exampleSource ACCurrentSource [2, 0] 1 2) = [2, 0] \<and>
   (\<exists>I'. updateCurrentVector [0, 0] (exampleSource ACCurrentSource [2, 0] 1 2) False
            = Inr (I', False) \<and> length I' = 2 \<and> I' ! 0 = - 2 \<and> I' ! 1 = 2) \<and>
   updateCurrentVector [0, 0] (exampleSource DCCurrentSource [1] 1 2) False = Inr ([0, 0], False)"
proof -
  have len: "length [0, 0 :: complex] = 2" by simp
  have n1: "getNodes (exampleSource ACCurrentSource [2, 0] 1 2) = [1, 2]"
    and p1: "getProperties (exampleSource ACCurrentSource [2, 0] 1 2) = [2, 0]"
    and t1: "typeid (exampleSource ACCurrentSource [2, 0] 1 2) = ACCurrentSource"
    and n2: "getNodes (exampleSource DCCurrentSource [1] 1 2) = [1, 2]"
    and t2: "typeid (exampleSource DCCurrentSource [1] 1 2) = DCCurrentSource"
    by (simp_all add: exampleSource_def)
  have a: "\<exists>I'. updateCurrentVector [0, 0] (exampleSource ACCurrentSource [2, 0] 1 2) False
            = Inr (I', False) \<and> length I' = 2 \<and> I' ! 0 = - 2 \<and> I' ! 1 = 2"
    using current_source_stamp [OF len n1, of 2 0 False] t1 p1 by auto
  have b: "updateCurrentVector [0, 0] (exampleSource DCCurrentSource [1] 1 2) False
      = Inr ([0, 0], False)"
    using current_source_stamp [OF len n2, of 0 0 False] t2 by simp
  show ?thesis using n1 p1 a b by blast
qed

text \<open>
  A DC current source of 1 A drawing from node 1 leaves the entry of node 1 at \<open>0\<close>,
  not at \<open>- 1\<close>.
\<close>

theorem dc_current_source_ignored:
  "getCurrentVector [exampleSource DCCurrentSource [1] 1 0] 1 = Inr [0]"
  by (simp add: eval_defs)

section \<open>Rank-deficient systems\<close>

text \<open>
  Claim C8. \<open>solveAtFrequency\<close> has no result for a singular system. Whenever the
  system is assembled, whatever the rank of the matrix, it returns the vector the solver
  gives; it fails only with an index error of the assembly.
\<close>

theorem solve_returns_solver_vector:
  "(assembleAtFrequency components numNodes angularFrequency = Inr (G, I) \<longrightarrow>
      solveAtFrequency qrSolve components numNodes angularFrequency = Inr (qrSolve G I)) \<and>
   (solveAtFrequency qrSolve components numNodes angularFrequency = Inl e \<longrightarrow>
      assembleAtFrequency components numNodes angularFrequency = Inl e)"
  by (cases "assembleAtFrequency components numNodes angularFrequency")
    (auto simp add: solveAtFrequency_def)

theorem solve_returns_solver_vector_witness:
  "assembleAtFrequency [exampleAdmittance Resistor 1 2 1] 2 1 = Inr ([[1, - 1], [- 1, 1]], [0, 0]) \<and>
   solveAtFrequency exampleSolver [exampleAdmittance Resistor 1 2 1] 2 1 =
     Inr (exampleSolver [[1, - 1], [- 1, 1]] [0, 0])"
proof -
  have a: "assembleAtFrequency [exampleAdmittance Resistor 1 2 1] 2 1 =
      Inr ([[1, - 1], [- 1, 1]], [0, 0])"
    by (simp add: eval_defs eval_nat_numeral)
  then show ?thesis
    using solve_returns_solver_vector
      [of "[exampleAdmittance Resistor 1 2 1]" 2 1 "[[1, - 1], [- 1, 1]]" "[0, 0]" exampleSolver]
    by simp
qed

text \<open>
  A resistor between the nodes 1 and 2 with no path to ground gives the matrix
  \<open>[[1, - 1], [- 1, 1]]\<close> of determinant \<open>0\<close>, and a solution vector is returned.
\<close>

theorem singular_system_solved:
  "getConductanceMatrix [exampleAdmittance Resistor 1 2 1] 2 1 = Inr [[1, - 1], [- 1, 1]] \<and>
   (1::complex) * 1 - (- 1) * (- 1) = 0 \<and>
   solveAtFrequency exampleSolver [exampleAdmittance Resistor 1 2 1] 2 1 = Inr [0, 0]"
  by (simp add: eval_defs eval_nat_numeral solveAtFrequency_def exampleSolver_def)


end
